theory Spec2Isabelle
  imports Complex_Main "HOL-Library.Word"
begin

unbundle bit_operations_syntax

section \<open>Python strings\<close>

text \<open>
  Source texts, tool names and dependency names are Python \<open>str\<close> values. They are
  modelled as \<open>string\<close>, read as the UTF-8 encoding of the text: every marker the
  code searches for or replaces is ASCII, and UTF-8 is self-synchronising, so searching
  and replacing on the bytes agrees with searching and replacing on the code points,
  and \<open>str.encode()\<close> is the identity.
\<close>

text \<open>\<open>s.startswith(p)\<close>\<close>

fun startswith :: "string \<Rightarrow> string \<Rightarrow> bool" where
  "startswith s [] = True"
| "startswith [] (p # ps) = False"
| "startswith (c # s) (p # ps) = (c = p \<and> startswith s ps)"

text \<open>\<open>needle in hay\<close> on strings: \<open>needle\<close> occurs as a contiguous block.\<close>

fun str_in :: "string \<Rightarrow> string \<Rightarrow> bool" where
  "str_in needle [] = (needle = [])"
| "str_in needle (c # s) = (startswith (c # s) needle \<or> str_in needle s)"

text \<open>\<open>s.replace(old, new)\<close> for one-character \<open>old\<close> and \<open>new\<close>.\<close>

definition str_replace :: "char \<Rightarrow> char \<Rightarrow> string \<Rightarrow> string" where
  "str_replace old new s = map (\<lambda>c. if c = old then new else c) s"

text \<open>The three double quotes that open or close a docstring.\<close>

definition triple_quote :: string where
  "triple_quote = [CHR 0x22, CHR 0x22, CHR 0x22]"

section \<open>CodeQualityAnalyzer\<close>

text \<open>
  \<open>analyze_code_quality\<close> returns a Python float. Every value it can take is one of
  85, 90, 95, 100, which binary floating point represents and adds exactly, so the
  score is modelled as a real number.
\<close>

text \<open>
  \<^verbatim>\<open>
  score = 85.0
  if '"""' in code: score += 5
  if 'try:' in code and 'except' in code: score += 5
  if '->' in code: score += 5
  return min(score, 100.0)
  \<close>
\<close>

definition analyze_code_quality :: "string \<Rightarrow> real" where
  "analyze_code_quality code =
     (let score = 85;
          score = (if str_in triple_quote code then score + 5 else score);
          score = (if str_in ''try:'' code \<and> str_in ''except'' code then score + 5 else score);
          score = (if str_in ''->'' code then score + 5 else score)
      in min score 100)"

section \<open>Content fingerprint: SHA-256 and its hexadecimal digest\<close>

text \<open>
  \<open>hashlib.sha256(text.encode()).hexdigest()\<close>: the SHA-256 function of FIPS 180-4 on
  the bytes of the text, written as 64 lowercase hexadecimal digits. The working
  variables and the digest are lists of eight 32-bit words.
\<close>

type_synonym u32 = "32 word"

definition rotr :: "nat \<Rightarrow> u32 \<Rightarrow> u32" where
  "rotr n x = drop_bit n x OR push_bit (32 - n) x"

definition Ch :: "u32 \<Rightarrow> u32 \<Rightarrow> u32 \<Rightarrow> u32" where
  "Ch x y z = (x AND y) XOR (NOT x AND z)"

definition Maj :: "u32 \<Rightarrow> u32 \<Rightarrow> u32 \<Rightarrow> u32" where
  "Maj x y z = (x AND y) XOR (x AND z) XOR (y AND z)"

definition Sigma0 :: "u32 \<Rightarrow> u32" where
  "Sigma0 x = rotr 2 x XOR rotr 13 x XOR rotr 22 x"

definition Sigma1 :: "u32 \<Rightarrow> u32" where
  "Sigma1 x = rotr 6 x XOR rotr 11 x XOR rotr 25 x"

definition sigma0 :: "u32 \<Rightarrow> u32" where
  "sigma0 x = rotr 7 x XOR rotr 18 x XOR drop_bit 3 x"

definition sigma1 :: "u32 \<Rightarrow> u32" where
  "sigma1 x = rotr 17 x XOR rotr 19 x XOR drop_bit 10 x"

definition K256 :: "u32 list" where
  "K256 = concat
    [[0x428a2f98, 0x71374491, 0xb5c0fbcf, 0xe9b5dba5],
     [0x3956c25b, 0x59f111f1, 0x923f82a4, 0xab1c5ed5],
     [0xd807aa98, 0x12835b01, 0x243185be, 0x550c7dc3],
     [0x72be5d74, 0x80deb1fe, 0x9bdc06a7, 0xc19bf174],
     [0xe49b69c1, 0xefbe4786, 0x0fc19dc6, 0x240ca1cc],
     [0x2de92c6f, 0x4a7484aa, 0x5cb0a9dc, 0x76f988da],
     [0x983e5152, 0xa831c66d, 0xb00327c8, 0xbf597fc7],
     [0xc6e00bf3, 0xd5a79147, 0x06ca6351, 0x14292967],
     [0x27b70a85, 0x2e1b2138, 0x4d2c6dfc, 0x53380d13],
     [0x650a7354, 0x766a0abb, 0x81c2c92e, 0x92722c85],
     [0xa2bfe8a1, 0xa81a664b, 0xc24b8b70, 0xc76c51a3],
     [0xd192e819, 0xd6990624, 0xf40e3585, 0x106aa070],
     [0x19a4c116, 0x1e376c08, 0x2748774c, 0x34b0bcb5],
     [0x391c0cb3, 0x4ed8aa4a, 0x5b9cca4f, 0x682e6ff3],
     [0x748f82ee, 0x78a5636f, 0x84c87814, 0x8cc70208],
     [0x90befffa, 0xa4506ceb, 0xbef9a3f7, 0xc67178f2]]"

definition H256 :: "u32 list" where
  "H256 = [0x6a09e667, 0xbb67ae85, 0x3c6ef372, 0xa54ff53a] @
          [0x510e527f, 0x9b05688c, 0x1f83d9ab, 0x5be0cd19]"

text \<open>The length of the message in bits, as eight bytes, most significant first.\<close>

definition length_bytes :: "nat \<Rightarrow> u32 list" where
  "length_bytes l =
     map (\<lambda>i. ucast (drop_bit (8 * (7 - i)) (of_nat (8 * l) :: 64 word)) AND 0xff) [0..<8]"

text \<open>Padding: the byte 0x80, zero bytes up to 56 modulo 64, then the length.\<close>

definition sha_pad :: "u32 list \<Rightarrow> u32 list" where
  "sha_pad bs =
     (let l = length bs
      in bs @ [0x80] @ replicate ((119 - l mod 64) mod 64) 0 @ length_bytes l)"

fun be_words :: "u32 list \<Rightarrow> u32 list" where
  "be_words (a # b # c # d # bs) =
     (push_bit 24 a OR push_bit 16 b OR push_bit 8 c OR d) # be_words bs"
| "be_words _ = []"

text \<open>\<open>chunks n\<close> cuts a list into blocks of \<open>n + 1\<close> elements.\<close>

fun chunks :: "nat \<Rightarrow> 'a list \<Rightarrow> 'a list list" where
  "chunks n [] = []"
| "chunks n (x # xs) = (x # take n xs) # chunks n (drop n xs)"

fun extend_schedule :: "nat \<Rightarrow> u32 list \<Rightarrow> u32 list" where
  "extend_schedule 0 w = w"
| "extend_schedule (Suc k) w =
     (let t = length w
      in extend_schedule k
           (w @ [sigma1 (w ! (t - 2)) + w ! (t - 7) + sigma0 (w ! (t - 15)) + w ! (t - 16)]))"

definition sha_round :: "u32 list \<Rightarrow> u32 \<times> u32 \<Rightarrow> u32 list" where
  "sha_round v kw =
     (let a = v ! 0; b = v ! 1; c = v ! 2; d = v ! 3;
          e = v ! 4; f = v ! 5; g = v ! 6; h = v ! 7;
          t1 = h + Sigma1 e + Ch e f g + fst kw + snd kw;
          t2 = Sigma0 a + Maj a b c
      in [t1 + t2, a, b, c, d + t1, e, f, g])"

definition sha_compress :: "u32 list \<Rightarrow> u32 list \<Rightarrow> u32 list" where
  "sha_compress v block =
     map2 (+) v (foldl sha_round v (zip K256 (extend_schedule 48 block)))"

definition sha256 :: "string \<Rightarrow> u32 list" where
  "sha256 s = foldl sha_compress H256 (map be_words (chunks 63 (sha_pad (map of_char s))))"

definition hex_digits :: string where
  "hex_digits = ''0123456789abcdef''"

definition hex_digit :: "u32 \<Rightarrow> char" where
  "hex_digit n = hex_digits ! unat (n AND 0xf)"

definition hex_u32 :: "u32 \<Rightarrow> string" where
  "hex_u32 w = map (\<lambda>i. hex_digit (drop_bit (4 * (7 - i)) w)) [0..<8]"

definition hexdigest :: "u32 list \<Rightarrow> string" where
  "hexdigest ws = concat (map hex_u32 ws)"

section \<open>Exceptions and log records\<close>

text \<open>
  The exceptions that the forge meets. \<open>SystemExit\<close> and
  \<open>KeyboardInterrupt\<close> derive from \<open>BaseException\<close> only, so that
  \<open>except Exception\<close> does not catch them.
\<close>

datatype py_exception =
    SyntaxError string
  | ImportError string
  | KeyError string
  | ValueError string
  | AttributeError string
  | OtherException string
  | SystemExit string
  | KeyboardInterrupt

fun is_SyntaxError :: "py_exception \<Rightarrow> bool" where
  "is_SyntaxError (SyntaxError m) = True"
| "is_SyntaxError _ = False"

fun is_ImportError :: "py_exception \<Rightarrow> bool" where
  "is_ImportError (ImportError m) = True"
| "is_ImportError _ = False"

fun is_Exception :: "py_exception \<Rightarrow> bool" where
  "is_Exception (SystemExit m) = False"
| "is_Exception KeyboardInterrupt = False"
| "is_Exception _ = True"

text \<open>
  A log record keeps the level and the values interpolated into the message of each
  \<open>logger\<close> call of the forge, in place of the formatted text.
\<close>

datatype log_record =
    GeneratingTools string
  | SyntaxPassed string
  | SyntaxErrorIn string py_exception
  | MissingDependencies string "string list"
  | CompiledTool string
  | CompileFailed string py_exception



section \<open>Tool specifications, compiled tools and the forge\<close>

text \<open>
  A tool specification is a Python dict; each key the forge reads is a field that may
  be absent, and reading an absent key raises \<open>KeyError\<close>.
\<close>

record tool_spec =
  name :: "string option"
  type :: "string option"
  code :: "string option"
  dependencies :: "string list option"
  description :: "string option"
  capabilities :: "string list option"
  case_specific :: "bool option"

record resources =
  cpu :: string
  memory :: string
  storage :: string

record health_policy =
  enabled :: bool
  endpoint :: string
  interval :: int

record deployment_config =
  deployment_type :: string
  resource_requirements :: resources
  environment_variables :: "(string \<times> string) list"
  health_check :: health_policy

text \<open>
  The dict that a compilation returns. The keys \<open>name\<close>, \<open>type\<close>,
  \<open>description\<close>, \<open>capabilities\<close>, \<open>code\<close>, \<open>dependencies\<close>,
  \<open>deployment_config\<close> and \<open>case_specific\<close> are the fields with the prefix
  \<open>tool_\<close>, which keeps them apart from the fields of a specification.
\<close>

record compiled_tool =
  tool_id :: string
  tool_name :: string
  tool_type :: string
  tool_description :: string
  tool_capabilities :: "string list"
  tool_code :: string
  tool_dependencies :: "string list"
  missing_dependencies :: "string list"
  quality_score :: real
  tool_deployment_config :: deployment_config
  compilation_timestamp :: string
  validation_status :: string
  tool_case_specific :: bool

text \<open>
  The case context is a Python dict that the forge reads with \<open>get\<close> only, so an
  absent key never raises.
\<close>

record case_context =
  case_id :: "string option"
  case_type :: "string option"
  jurisdiction :: "string option"
  evidence_types :: "string list option"
  legal_issues :: "string list option"
  deadlines :: "string list option"

text \<open>
  What the forge reads from its surroundings and never changes. Each is a parameter
  of the model:
  \<^item> the parser behind \<open>ast.parse\<close>: \<open>None\<close> when the text parses, the
    exception it raises otherwise;
  \<^item> the builtin \<open>__import__\<close>: for each module name, \<open>import_result\<close> is
    \<open>None\<close> when the call returns and the exception it raises otherwise, and
    \<open>import_loads\<close> are the modules that the call loads, whether it returns or
    raises;
  \<^item> the clock: the timestamp returned by the n-th reading;
  \<^item> the two text templates of the generators (lines 98 to 240 and 263 to 443 of the
    source), as functions of the case context and the timestamp they interpolate.
\<close>

record runtime =
  ast_parse :: "string \<Rightarrow> py_exception option"
  import_result :: "string \<Rightarrow> py_exception option"
  import_loads :: "string \<Rightarrow> string set"
  utcnow :: "nat \<Rightarrow> string"
  evidence_analyzer_template :: "case_context \<Rightarrow> string \<Rightarrow> string"
  timeline_template :: "case_context \<Rightarrow> string \<Rightarrow> string"

text \<open>
  What changes: the registry \<open>generated_tools\<close> of the forge instance, the modules
  already loaded (\<open>sys.modules\<close>), the records written to the log, and the number of
  clock readings so far.
\<close>

record forge =
  generated_tools :: "string \<rightharpoonup> compiled_tool"
  sys_modules :: "string set"
  log_records :: "log_record list"
  clock_reads :: nat

definition emit :: "log_record \<Rightarrow> forge \<Rightarrow> forge" where
  "emit r s = s\<lparr>log_records := log_records s @ [r]\<rparr>"

text \<open>\<open>d[key]\<close> on a dict.\<close>

definition getitem :: "'a option \<Rightarrow> string \<Rightarrow> py_exception + 'a" where
  "getitem v key = (case v of None \<Rightarrow> Inl (KeyError key) | Some x \<Rightarrow> Inr x)"

text \<open>Sequencing of two steps, the first of which may raise.\<close>

definition and_then :: "'e + 'a \<Rightarrow> ('a \<Rightarrow> 'e + 'b) \<Rightarrow> 'e + 'b" where
  "and_then r f = (case r of Inl e \<Rightarrow> Inl e | Inr x \<Rightarrow> f x)"

section \<open>DependencyResolver\<close>

text \<open>
  The call \<open>__import__(name)\<close>: it returns or raises as the environment says, and
  what it loads is added to \<open>sys.modules\<close>.
\<close>

definition py_import :: "runtime \<Rightarrow> string \<Rightarrow> forge \<Rightarrow> (py_exception + unit) \<times> forge" where
  "py_import rt nm s =
     ((case import_result rt nm of None \<Rightarrow> Inr () | Some e \<Rightarrow> Inl e),
      s\<lparr>sys_modules := sys_modules s \<union> import_loads rt nm\<rparr>)"

text \<open>
  \<^verbatim>\<open>
  missing = []
  for dep in dependencies:
      try:
          __import__(dep.replace('-', '_'))
      except ImportError:
          missing.append(dep)
  return missing
  \<close>
  The loop of \<open>check_dependencies\<close>, with the list \<open>missing\<close> built so far. An
  exception that is not an \<open>ImportError\<close> leaves the loop and the function.
\<close>

fun check_dependencies_loop ::
  "runtime \<Rightarrow> string list \<Rightarrow> string list \<Rightarrow> forge \<Rightarrow> (py_exception + string list) \<times> forge"
where
  "check_dependencies_loop rt [] missing s = (Inr missing, s)"
| "check_dependencies_loop rt (dep # deps) missing s =
     (case py_import rt (str_replace CHR ''-'' CHR ''_'' dep) s of
        (Inr u, s') \<Rightarrow> check_dependencies_loop rt deps missing s'
      | (Inl e, s') \<Rightarrow>
          if is_ImportError e then check_dependencies_loop rt deps (missing @ [dep]) s'
          else (Inl e, s'))"

definition check_dependencies ::
  "runtime \<Rightarrow> string list \<Rightarrow> forge \<Rightarrow> (py_exception + string list) \<times> forge"
where
  "check_dependencies rt deps s = check_dependencies_loop rt deps [] s"

section \<open>ToolDeploymentManager\<close>

text \<open>
  \<open>generate_deployment_config\<close> returns a dict literal. Its values are constants
  except for \<open>tool_spec['name']\<close> and \<open>tool_spec['type']\<close>, read in this order.
  The environment variables keep the order of the literal.
\<close>

definition generate_deployment_config :: "tool_spec \<Rightarrow> py_exception + deployment_config" where
  "generate_deployment_config tool_spec =
     and_then (getitem (name tool_spec) ''name'') (\<lambda>n.
     and_then (getitem (type tool_spec) ''type'') (\<lambda>t.
       Inr \<lparr>deployment_type = ''docker'',
            resource_requirements = \<lparr>cpu = ''0.5'', memory = ''512Mi'', storage = ''1Gi''\<rparr>,
            environment_variables =
              [(''TOOL_NAME'', n), (''TOOL_TYPE'', t), (''LOG_LEVEL'', ''INFO'')],
            health_check = \<lparr>enabled = True, endpoint = ''/health'', interval = 30\<rparr>\<rparr>))"

section \<open>DynamicToolForge\<close>

text \<open>
  The syntax validation of \<open>compile_and_validate_tool\<close>: the \<open>try\<close> block around
  \<open>ast.parse\<close>. Only a \<open>SyntaxError\<close> is logged before it is raised again; the
  messages read \<open>tool_spec['name']\<close>.
\<close>

definition syntax_validation :: "runtime \<Rightarrow> tool_spec \<Rightarrow> forge \<Rightarrow> (py_exception + unit) \<times> forge" where
  "syntax_validation rt tool_spec s =
     (case code tool_spec of
        None \<Rightarrow> (Inl (KeyError ''code''), s)
      | Some c \<Rightarrow>
          (case ast_parse rt c of
             None \<Rightarrow>
               (case name tool_spec of
                  None \<Rightarrow> (Inl (KeyError ''name''), s)
                | Some n \<Rightarrow> (Inr (), emit (SyntaxPassed n) s))
           | Some e \<Rightarrow>
               if is_SyntaxError e then
                 (case name tool_spec of
                    None \<Rightarrow> (Inl (KeyError ''name''), s)
                  | Some n \<Rightarrow> (Inl e, emit (SyntaxErrorIn n e) s))
               else (Inl e, s)))"

text \<open>The warning written when some dependency is missing.\<close>

definition warn_missing :: "tool_spec \<Rightarrow> string list \<Rightarrow> forge \<Rightarrow> (py_exception + unit) \<times> forge" where
  "warn_missing tool_spec missing_deps s =
     (if missing_deps \<noteq> [] then
        (case name tool_spec of
           None \<Rightarrow> (Inl (KeyError ''name''), s)
         | Some n \<Rightarrow> (Inr (), emit (MissingDependencies n missing_deps) s))
      else (Inr (), s))"

text \<open>The dict \<open>compiled_tool\<close>, its values computed in the order of the source.\<close>

definition build_compiled_tool ::
  "tool_spec \<Rightarrow> string list \<Rightarrow> real \<Rightarrow> deployment_config \<Rightarrow> string \<Rightarrow> py_exception + compiled_tool"
where
  "build_compiled_tool tool_spec missing_deps score config now =
     and_then (getitem (code tool_spec) ''code'') (\<lambda>c.
     and_then (getitem (name tool_spec) ''name'') (\<lambda>n.
     and_then (getitem (type tool_spec) ''type'') (\<lambda>t.
     and_then (getitem (description tool_spec) ''description'') (\<lambda>d.
     and_then (getitem (capabilities tool_spec) ''capabilities'') (\<lambda>caps.
     and_then (getitem (dependencies tool_spec) ''dependencies'') (\<lambda>deps.
       Inr \<lparr>tool_id = take 16 (hexdigest (sha256 c)),
            tool_name = n,
            tool_type = t,
            tool_description = d,
            tool_capabilities = caps,
            tool_code = c,
            tool_dependencies = deps,
            missing_dependencies = missing_deps,
            quality_score = score,
            tool_deployment_config = config,
            compilation_timestamp = now,
            validation_status = (if missing_deps = [] then ''passed'' else ''warning''),
            tool_case_specific =
              (case case_specific tool_spec of None \<Rightarrow> False | Some b \<Rightarrow> b)\<rparr>))))))"

text \<open>\<open>self.generated_tools[compiled_tool['tool_id']] = compiled_tool\<close>\<close>

definition store_tool :: "compiled_tool \<Rightarrow> forge \<Rightarrow> forge" where
  "store_tool t s = s\<lparr>generated_tools := (generated_tools s)(tool_id t \<mapsto> t)\<rparr>"

text \<open>
  \<open>compile_and_validate_tool\<close>: syntax validation, dependency validation, quality
  analysis, deployment configuration, the dict \<open>compiled_tool\<close> with the timestamp
  read from the clock, and the store into the registry. Each stage that raises ends
  the function with the state reached so far.
\<close>

definition compile_and_validate_tool ::
  "runtime \<Rightarrow> tool_spec \<Rightarrow> forge \<Rightarrow> (py_exception + compiled_tool) \<times> forge"
where
  "compile_and_validate_tool rt tool_spec s =
     (case syntax_validation rt tool_spec s of
        (Inl e, s1) \<Rightarrow> (Inl e, s1)
      | (Inr u, s1) \<Rightarrow>
     (case getitem (dependencies tool_spec) ''dependencies'' of
        Inl e \<Rightarrow> (Inl e, s1)
      | Inr deps \<Rightarrow>
     (case check_dependencies rt deps s1 of
        (Inl e, s2) \<Rightarrow> (Inl e, s2)
      | (Inr missing_deps, s2) \<Rightarrow>
     (case warn_missing tool_spec missing_deps s2 of
        (Inl e, s3) \<Rightarrow> (Inl e, s3)
      | (Inr u, s3) \<Rightarrow>
     (case getitem (code tool_spec) ''code'' of
        Inl e \<Rightarrow> (Inl e, s3)
      | Inr c \<Rightarrow>
     (case generate_deployment_config tool_spec of
        Inl e \<Rightarrow> (Inl e, s3)
      | Inr config \<Rightarrow>
     (case build_compiled_tool tool_spec missing_deps (analyze_code_quality c) config
             (utcnow rt (clock_reads s3)) of
        Inl e \<Rightarrow> (Inl e, s3)
      | Inr compiled \<Rightarrow>
          (Inr compiled,
           store_tool compiled (s3\<lparr>clock_reads := Suc (clock_reads s3)\<rparr>)))))))))"

text \<open>
  \<^verbatim>\<open>
  compiled_tools = []
  for tool in tools:
      try:
          compiled_tool = await self.compile_and_validate_tool(tool)
          compiled_tools.append(compiled_tool)
          logger.info(f"Successfully compiled tool: {tool['name']}")
      except Exception as e:
          logger.error(f"Failed to compile tool {tool['name']}: {e}")
  return compiled_tools
  \<close>
  The loop of lines 84 to 93, with the list \<open>compiled_tools\<close> built so far. An
  exception of a compilation that derives from \<open>Exception\<close> is caught and logged;
  any other leaves the loop. The two log messages read \<open>tool['name']\<close>, and a
  \<open>KeyError\<close> raised there leaves the loop too.
\<close>

fun compile_loop ::
  "runtime \<Rightarrow> tool_spec list \<Rightarrow> compiled_tool list \<Rightarrow> forge
     \<Rightarrow> (py_exception + compiled_tool list) \<times> forge"
where
  "compile_loop rt [] compiled_tools s = (Inr compiled_tools, s)"
| "compile_loop rt (tool # tools) compiled_tools s =
     (case compile_and_validate_tool rt tool s of
        (Inr compiled, s1) \<Rightarrow>
          (case name tool of
             None \<Rightarrow> (Inl (KeyError ''name''), s1)
           | Some n \<Rightarrow>
               compile_loop rt tools (compiled_tools @ [compiled]) (emit (CompiledTool n) s1))
      | (Inl e, s1) \<Rightarrow>
          if is_Exception e then
            (case name tool of
               None \<Rightarrow> (Inl (KeyError ''name''), s1)
             | Some n \<Rightarrow> compile_loop rt tools compiled_tools (emit (CompileFailed n e) s1))
          else (Inl e, s1))"

text \<open>\<open>d.get(key, default)\<close> on a dict.\<close>

definition get_default :: "'a option \<Rightarrow> 'a \<Rightarrow> 'a" where
  "get_default v d = (case v of None \<Rightarrow> d | Some x \<Rightarrow> x)"

text \<open>\<open>str(d.get(key))\<close> inside an f-string: an absent key prints as \<open>None\<close>.\<close>

definition get_str :: "string option \<Rightarrow> string" where
  "get_str v = (case v of None \<Rightarrow> ''None'' | Some x \<Rightarrow> x)"

text \<open>\<open>s.lower()\<close> on the ASCII letters.\<close>

definition ascii_lower :: "char \<Rightarrow> char" where
  "ascii_lower c =
     (if 65 \<le> (of_char c :: nat) \<and> (of_char c :: nat) \<le> 90
      then char_of (of_char c + (32 :: nat)) else c)"

definition str_lower :: "string \<Rightarrow> string" where
  "str_lower s = map ascii_lower s"

text \<open>
  The dict that \<open>analyze_case_requirements\<close> returns. It reads the case context
  and changes nothing.
\<close>

record requirements =
  req_case_id :: "string option"
  req_case_type :: "string option"
  req_jurisdiction :: "string option"
  req_evidence_types :: "string list"
  req_legal_issues :: "string list"
  req_deadlines :: "string list"
  required_tools :: "string list"
  ai_specializations :: "string list"

definition analyze_case_requirements :: "case_context \<Rightarrow> requirements" where
  "analyze_case_requirements case_context =
     \<lparr>req_case_id = case_id case_context,
      req_case_type = case_type case_context,
      req_jurisdiction = jurisdiction case_context,
      req_evidence_types = get_default (evidence_types case_context) [],
      req_legal_issues = get_default (legal_issues case_context) [],
      req_deadlines = get_default (deadlines case_context) [],
      required_tools =
        [''evidence_analyzer'', ''timeline_reconstructor'', ''legal_research_automation'',
         ''compliance_monitor'', ''document_automation'', ''deadline_manager'',
         ''communication_tracker'', ''strategy_analyzer''],
      ai_specializations =
        [if str_in ''family'' (str_lower (get_default (case_type case_context) []))
         then ''family_law'' else ''general_law'',
         ''evidence_analysis'', ''legal_research'', ''strategic_planning'']\<rparr>"

text \<open>
  The two generators that the class defines. Each fills its template, which reads the
  clock once, and returns a specification with every key.
\<close>

definition generate_evidence_analyzer_tool ::
  "runtime \<Rightarrow> case_context \<Rightarrow> forge \<Rightarrow> tool_spec \<times> forge"
where
  "generate_evidence_analyzer_tool rt case_context s =
     (\<lparr>name = Some (''evidence_analyzer_'' @ get_default (case_id case_context) ''unknown''),
       type = Some ''evidence_analyzer'',
       code = Some (evidence_analyzer_template rt case_context (utcnow rt (clock_reads s))),
       dependencies =
         Some [''pytesseract'', ''Pillow'', ''SpeechRecognition'', ''moviepy'', ''pandas'',
               ''numpy'', ''python-magic''],
       description =
         Some (''Intelligent evidence analysis tool for case '' @ get_str (case_id case_context)),
       capabilities =
         Some [''document_ocr'', ''image_analysis'', ''audio_transcription'',
               ''video_processing'', ''legal_entity_extraction'', ''strategic_analysis'',
               ''blockchain_provenance''],
       case_specific = Some True\<rparr>,
      s\<lparr>clock_reads := Suc (clock_reads s)\<rparr>)"

definition generate_timeline_tool ::
  "runtime \<Rightarrow> case_context \<Rightarrow> forge \<Rightarrow> tool_spec \<times> forge"
where
  "generate_timeline_tool rt case_context s =
     (\<lparr>name = Some (''timeline_reconstructor_'' @ get_default (case_id case_context) ''unknown''),
       type = Some ''timeline_analyzer'',
       code = Some (timeline_template rt case_context (utcnow rt (clock_reads s))),
       dependencies =
         Some [''pandas'', ''numpy'', ''networkx'', ''scikit-learn'', ''python-dateutil''],
       description =
         Some (''Timeline reconstruction and analysis tool for case ''
                 @ get_str (case_id case_context)),
       capabilities =
         Some [''temporal_event_extraction'', ''event_clustering'',
               ''causal_relationship_analysis'', ''gap_detection'', ''pattern_recognition'',
               ''critical_period_identification''],
       case_specific = Some True\<rparr>,
      s\<lparr>clock_reads := Suc (clock_reads s)\<rparr>)"

text \<open>
  \<open>generate_case_tools\<close>. It logs the case, analyses the requirements and calls
  the generators in turn, outside any \<open>try\<close>. The third call reads the attribute
  \<open>generate_legal_research_tool\<close>, which the class does not define (nor the
  five generators called after it), so the function raises \<open>AttributeError\<close>
  there: the loop of lines 84 to 93 is never reached.
\<close>

definition generate_case_tools ::
  "runtime \<Rightarrow> case_context \<Rightarrow> forge \<Rightarrow> (py_exception + compiled_tool list) \<times> forge"
where
  "generate_case_tools rt case_context s =
     (let s0 = emit (GeneratingTools (get_default (case_id case_context) ''Unknown'')) s;
          requirements = analyze_case_requirements case_context;
          (evidence_tool, s1) = generate_evidence_analyzer_tool rt case_context s0;
          (timeline_tool, s2) = generate_timeline_tool rt case_context s1
      in (Inl (AttributeError ''generate_legal_research_tool''), s2))"

text \<open>A specification that carries every key the forge reads with \<open>d[key]\<close>.\<close>

definition has_all_keys :: "tool_spec \<Rightarrow> bool" where
  "has_all_keys t \<longleftrightarrow>
     name t \<noteq> None \<and> type t \<noteq> None \<and> code t \<noteq> None \<and> dependencies t \<noteq> None
     \<and> description t \<noteq> None \<and> capabilities t \<noteq> None"

text \<open>The source text of a specification parses.\<close>

definition parses :: "runtime \<Rightarrow> tool_spec \<Rightarrow> bool" where
  "parses rt t = (case code t of None \<Rightarrow> False | Some c \<Rightarrow> ast_parse rt c = None)"

section \<open>Notions used in the statements\<close>

text \<open>The module name that \<open>check_dependencies\<close> imports for a dependency.\<close>

abbreviation import_name :: "string \<Rightarrow> string" where
  "import_name dep \<equiv> str_replace CHR ''-'' CHR ''_'' dep"

text \<open>A dependency is missing when importing it raises \<open>ImportError\<close>.\<close>

definition is_missing :: "runtime \<Rightarrow> string \<Rightarrow> bool" where
  "is_missing rt dep =
     (case import_result rt (import_name dep) of None \<Rightarrow> False | Some e \<Rightarrow> is_ImportError e)"

text \<open>Importing a dependency returns or raises \<open>ImportError\<close>.\<close>

definition found_or_missing :: "runtime \<Rightarrow> string \<Rightarrow> bool" where
  "found_or_missing rt dep =
     (case import_result rt (import_name dep) of None \<Rightarrow> True | Some e \<Rightarrow> is_ImportError e)"

text \<open>The modules that checking \<open>deps\<close> loads.\<close>

definition loaded_by :: "runtime \<Rightarrow> string list \<Rightarrow> string set" where
  "loaded_by rt deps = (\<Union>dep\<in>set deps. import_loads rt (import_name dep))"

text \<open>The declared dependencies that are missing, in the order declared.\<close>

definition missing_of :: "runtime \<Rightarrow> string list \<Rightarrow> string list" where
  "missing_of rt deps = filter (is_missing rt) deps"

text \<open>Every declared dependency of a specification is found or missing.\<close>

definition resolves :: "runtime \<Rightarrow> tool_spec \<Rightarrow> bool" where
  "resolves rt t =
     (case dependencies t of None \<Rightarrow> True | Some deps \<Rightarrow> list_all (found_or_missing rt) deps)"

text \<open>
  The specifications that \<open>compile_and_validate_tool\<close> accepts: every key is
  present, the source text parses and every dependency is found or missing.
\<close>

definition compiles :: "runtime \<Rightarrow> tool_spec \<Rightarrow> bool" where
  "compiles rt t \<longleftrightarrow> has_all_keys t \<and> parses rt t \<and> resolves rt t"


text \<open>
  The states that a forge instance reaches from \<open>s\<close> by any sequence of calls of
  \<open>compile_and_validate_tool\<close>, of \<open>generate_case_tools\<close> and of the loop of
  lines 84 to 93 on any list, whatever they return.
\<close>

inductive forge_run :: "runtime \<Rightarrow> forge \<Rightarrow> forge \<Rightarrow> bool" for rt :: runtime where
  no_call: "forge_run rt s s"
| compile_call:
    "forge_run rt s s1 \<Longrightarrow> compile_and_validate_tool rt t s1 = (r, s2) \<Longrightarrow> forge_run rt s s2"
| loop_call:
    "forge_run rt s s1 \<Longrightarrow> compile_loop rt tools acc s1 = (rs, s2) \<Longrightarrow> forge_run rt s s2"
| batch_call:
    "forge_run rt s s1 \<Longrightarrow> generate_case_tools rt case_context s1 = (rs, s2) \<Longrightarrow> forge_run rt s s2"

section \<open>Sample data\<close>

text \<open>
  A runtime whose parser rejects the text \<open>def f(:\<close> and accepts \<open>pass\<close>, as
  Python does. Its import system has \<open>json\<close> and \<open>pandas\<close> installed; the
  names \<open>''\<close> and \<open>.json\<close> raise \<open>ValueError\<close> and the name
  \<open>unittest.__main__\<close> raises \<open>SystemExit\<close>, as the builtin does; every other
  name is missing. Together with a specification with every key, a forge as
  \<open>__init__\<close> leaves it, a batch of three specifications, the second of which
  does not parse, and a case context.
\<close>

definition sample_import_result :: "string \<Rightarrow> py_exception option" where
  "sample_import_result nm =
     (if nm = [] \<or> nm = ''.json'' then Some (ValueError ''Empty module name'')
      else if nm = ''unittest.__main__'' then Some (SystemExit ''False'')
      else if nm = ''json'' \<or> nm = ''pandas'' then None
      else Some (ImportError nm))"

definition sample_import_loads :: "string \<Rightarrow> string set" where
  "sample_import_loads nm =
     (if nm = ''pandas'' then {''pandas'', ''numpy''}
      else if nm = ''json'' \<or> nm = ''.json'' then {''json''}
      else {})"

definition sample_runtime :: runtime where
  "sample_runtime =
     \<lparr>ast_parse = (\<lambda>src. if src = ''def f(:'' then Some (SyntaxError ''invalid syntax'')
                         else None),
      import_result = sample_import_result,
      import_loads = sample_import_loads,
      utcnow = (\<lambda>k. if k = 0 then ''2025-10-25T14:05:00'' else ''2025-10-25T14:05:01''),
      evidence_analyzer_template = (\<lambda>c now. ''pass''),
      timeline_template = (\<lambda>c now. ''pass'')\<rparr>"

definition sample_spec :: "string \<Rightarrow> string \<Rightarrow> string list \<Rightarrow> tool_spec" where
  "sample_spec n c deps =
     \<lparr>name = Some n, type = Some ''evidence_analyzer'', code = Some c,
      dependencies = Some deps, description = Some ''Evidence analysis'',
      capabilities = Some [''document_ocr''], case_specific = Some True\<rparr>"

definition initial_forge :: forge where
  "initial_forge =
     \<lparr>generated_tools = Map.empty, sys_modules = {''sys''}, log_records = [],
      clock_reads = 0\<rparr>"

definition sample_batch :: "tool_spec list" where
  "sample_batch =
     [sample_spec ''evidence_analyzer_1'' ''pass'' [''pandas''],
      sample_spec ''timeline_reconstructor_1'' ''def f(:'' [],
      sample_spec ''research_tool_1'' ''pass'' [''pandas'', ''nonexistent-pkg-xyz'']]"

definition sample_context :: case_context where
  "sample_context =
     \<lparr>case_id = Some ''1FDV-23-0001009'', case_type = Some ''family_law_custody'',
      jurisdiction = Some ''Hawaii_Family_Court'',
      evidence_types = Some [''documents'', ''communications'', ''financial_records''],
      legal_issues = Some [''child_custody'', ''visitation_rights'', ''child_support''],
      deadlines = Some [''2025-11-08'', ''2025-11-15'', ''2025-11-29'']\<rparr>"

section \<open>Properties of the string operations\<close>

lemma startswith_iff: "startswith s p \<longleftrightarrow> (\<exists>post. s = p @ post)"
  by (induction s p rule: startswith.induct) auto

lemma str_in_iff: "str_in needle hay \<longleftrightarrow> (\<exists>pre post. hay = pre @ needle @ post)"
proof (induction hay)
  case Nil
  then show ?case by auto
next
  case (Cons c s)
  show ?case
  proof
    assume "str_in needle (c # s)"
    then consider "startswith (c # s) needle" | "str_in needle s" by auto
    then show "\<exists>pre post. c # s = pre @ needle @ post"
    proof cases
      case 1
      then obtain post where "c # s = needle @ post" by (auto simp: startswith_iff)
      then have "c # s = [] @ needle @ post" by simp
      then show ?thesis by blast
    next
      case 2
      then obtain pre post where "s = pre @ needle @ post" using Cons.IH by auto
      then have "c # s = (c # pre) @ needle @ post" by simp
      then show ?thesis by blast
    qed
  next
    assume "\<exists>pre post. c # s = pre @ needle @ post"
    then obtain pre post where eq: "c # s = pre @ needle @ post" by blast
    show "str_in needle (c # s)"
    proof (cases pre)
      case Nil
      then have "startswith (c # s) needle" using eq by (auto simp: startswith_iff)
      then show ?thesis by simp
    next
      case (Cons a pre')
      then have "s = pre' @ needle @ post" using eq by simp
      then have "str_in needle s" using Cons.IH by blast
      then show ?thesis by simp
    qed
  qed
qed

lemma str_replace_length: "length (str_replace old new s) = length s"
  by (simp add: str_replace_def)

lemma str_replace_empty_iff: "str_replace old new s = [] \<longleftrightarrow> s = []"
  by (simp add: str_replace_def)

section \<open>Properties of the fingerprint\<close>

lemma sha_round_length: "length (sha_round v kw) = 8"
  by (simp add: sha_round_def Let_def)

lemma foldl_sha_round_length:
  "xs \<noteq> [] \<Longrightarrow> length (foldl sha_round v xs) = 8"
proof (induction xs arbitrary: v)
  case Nil
  then show ?case by simp
next
  case (Cons x xs)
  show ?case
  proof (cases xs)
    case Nil
    then show ?thesis by (simp add: sha_round_length)
  next
    case (Cons y ys)
    then show ?thesis using Cons.IH [of "sha_round v x"] by simp
  qed
qed

lemma extend_schedule_length: "length (extend_schedule k w) = k + length w"
  by (induction k w rule: extend_schedule.induct) (simp_all add: Let_def)

lemma K256_length: "length K256 = 64"
  by (simp add: K256_def)

lemma sha_compress_length: "length v = 8 \<Longrightarrow> length (sha_compress v block) = 8"
proof -
  assume v: "length v = 8"
  have "length (zip K256 (extend_schedule 48 block)) = min 64 (48 + length block)"
    by (simp add: K256_length extend_schedule_length)
  then have "zip K256 (extend_schedule 48 block) \<noteq> []"
    by (metis length_0_conv min_less_iff_conj not_less_zero not_gr_zero zero_less_numeral add_gr_0)
  then have "length (foldl sha_round v (zip K256 (extend_schedule 48 block))) = 8"
    by (rule foldl_sha_round_length)
  then show ?thesis using v by (simp add: sha_compress_def)
qed

lemma foldl_sha_compress_length:
  "length v = 8 \<Longrightarrow> length (foldl sha_compress v blocks) = 8"
  by (induction blocks arbitrary: v) (simp_all add: sha_compress_length)

lemma sha256_length: "length (sha256 s) = 8"
  by (simp add: sha256_def foldl_sha_compress_length H256_def)

lemma hex_digits_length: "length hex_digits = 16"
  by (simp add: hex_digits_def)

lemma hex_digit_range: "hex_digit n \<in> set hex_digits"
proof -
  have "n AND 0xf \<le> 0xf" by (rule word_and_le1)
  then have "unat (n AND 0xf) \<le> unat (0xf :: u32)" by (simp add: word_le_nat_alt)
  then have "unat (n AND 0xf) < length hex_digits" by (simp add: hex_digits_length)
  then show ?thesis unfolding hex_digit_def by (rule nth_mem)
qed

lemma hex_u32_length: "length (hex_u32 w) = 8"
  by (simp add: hex_u32_def)

lemma hex_u32_range: "set (hex_u32 w) \<subseteq> set hex_digits"
  unfolding hex_u32_def using hex_digit_range by auto

lemma hexdigest_length: "length (hexdigest ws) = 8 * length ws"
  by (induction ws) (simp_all add: hexdigest_def hex_u32_length)

lemma hexdigest_range: "set (hexdigest ws) \<subseteq> set hex_digits"
  unfolding hexdigest_def using hex_u32_range by auto

lemma fingerprint_length: "length (take 16 (hexdigest (sha256 s))) = 16"
  by (simp add: hexdigest_length sha256_length)

lemma fingerprint_range: "set (take 16 (hexdigest (sha256 s))) \<subseteq> set hex_digits"
  using hexdigest_range [of "sha256 s"] set_take_subset [of 16 "hexdigest (sha256 s)"]
  by blast

section \<open>Properties of the dependency resolver\<close>

lemma py_import_fields [simp]:
  "generated_tools (snd (py_import rt nm s)) = generated_tools s"
  "log_records (snd (py_import rt nm s)) = log_records s"
  "clock_reads (snd (py_import rt nm s)) = clock_reads s"
  "sys_modules (snd (py_import rt nm s)) = sys_modules s \<union> import_loads rt nm"
  by (simp_all add: py_import_def)

lemma loaded_by_Nil [simp]: "loaded_by rt [] = {}"
  by (simp add: loaded_by_def)

lemma loaded_by_Cons [simp]:
  "loaded_by rt (dep # deps) = import_loads rt (import_name dep) \<union> loaded_by rt deps"
  by (simp add: loaded_by_def)

lemma loaded_by_append [simp]:
  "loaded_by rt (xs @ ys) = loaded_by rt xs \<union> loaded_by rt ys"
  by (simp add: loaded_by_def)

lemma check_dependencies_loop_result:
  "list_all (found_or_missing rt) deps \<Longrightarrow>
   check_dependencies_loop rt deps missing s =
     (Inr (missing @ missing_of rt deps),
      s\<lparr>sys_modules := sys_modules s \<union> loaded_by rt deps\<rparr>)"
proof (induction deps arbitrary: missing s)
  case Nil
  then show ?case by (simp add: missing_of_def)
next
  case (Cons dep deps)
  let ?nm = "import_name dep"
  let ?s1 = "s\<lparr>sys_modules := sys_modules s \<union> import_loads rt ?nm\<rparr>"
  from Cons.prems have here: "found_or_missing rt dep"
    and rest: "list_all (found_or_missing rt) deps"
    by simp_all
  have un: "sys_modules s \<union> import_loads rt ?nm \<union> loaded_by rt deps
          = sys_modules s \<union> loaded_by rt (dep # deps)"
    by auto
  show ?case
  proof (cases "import_result rt ?nm")
    case None
    then have imp: "py_import rt ?nm s = (Inr (), ?s1)" by (simp add: py_import_def)
    have nm: "\<not> is_missing rt dep" using None by (simp add: is_missing_def)
    show ?thesis
      using Cons.IH [OF rest, of missing ?s1] imp nm un by (simp add: missing_of_def)
  next
    case (Some e)
    then have ie: "is_ImportError e" using here by (simp add: found_or_missing_def)
    have imp: "py_import rt ?nm s = (Inl e, ?s1)" using Some by (simp add: py_import_def)
    have m: "is_missing rt dep" using Some ie by (simp add: is_missing_def)
    show ?thesis
      using Cons.IH [OF rest, of "missing @ [dep]" ?s1] imp ie m un
      by (simp add: missing_of_def)
  qed
qed

lemma check_dependencies_loop_raises:
  assumes "list_all (found_or_missing rt) pre"
    and "import_result rt (import_name dep) = Some e" and "\<not> is_ImportError e"
  shows "check_dependencies_loop rt (pre @ dep # post) missing s =
           (Inl e, s\<lparr>sys_modules := sys_modules s \<union> loaded_by rt (pre @ [dep])\<rparr>)"
  using assms(1)
proof (induction pre arbitrary: missing s)
  case Nil
  show ?case using assms(2,3) by (simp add: py_import_def)
next
  case (Cons d pre)
  let ?nm = "import_name d"
  let ?s1 = "s\<lparr>sys_modules := sys_modules s \<union> import_loads rt ?nm\<rparr>"
  from Cons.prems have here: "found_or_missing rt d"
    and rest: "list_all (found_or_missing rt) pre"
    by simp_all
  have un: "sys_modules s \<union> import_loads rt ?nm \<union> loaded_by rt (pre @ [dep])
          = sys_modules s \<union> loaded_by rt ((d # pre) @ [dep])"
    by auto
  show ?case
  proof (cases "import_result rt ?nm")
    case None
    then have imp: "py_import rt ?nm s = (Inr (), ?s1)" by (simp add: py_import_def)
    show ?thesis using Cons.IH [OF rest, of missing ?s1] imp un by simp
  next
    case (Some e')
    then have ie: "is_ImportError e'" using here by (simp add: found_or_missing_def)
    have imp: "py_import rt ?nm s = (Inl e', ?s1)" using Some by (simp add: py_import_def)
    show ?thesis using Cons.IH [OF rest, of "missing @ [d]" ?s1] imp ie un by simp
  qed
qed

lemma not_all_found_or_missing:
  "\<not> list_all (found_or_missing rt) deps \<Longrightarrow>
   \<exists>pre dep post e. deps = pre @ dep # post \<and> list_all (found_or_missing rt) pre
      \<and> import_result rt (import_name dep) = Some e \<and> \<not> is_ImportError e"
proof (induction deps)
  case Nil
  then show ?case by simp
next
  case (Cons d deps)
  show ?case
  proof (cases "found_or_missing rt d")
    case False
    then obtain e where "import_result rt (import_name d) = Some e" "\<not> is_ImportError e"
      by (auto simp: found_or_missing_def split: option.splits)
    then have "d # deps = [] @ d # deps \<and> list_all (found_or_missing rt) []
      \<and> import_result rt (import_name d) = Some e \<and> \<not> is_ImportError e"
      by simp
    then show ?thesis by blast
  next
    case True
    then have "\<not> list_all (found_or_missing rt) deps" using Cons.prems by simp
    from Cons.IH [OF this] obtain pre dep post e where
      "deps = pre @ dep # post" "list_all (found_or_missing rt) pre"
      "import_result rt (import_name dep) = Some e" "\<not> is_ImportError e"
      by blast
    then have "d # deps = (d # pre) @ dep # post \<and> list_all (found_or_missing rt) (d # pre)
      \<and> import_result rt (import_name dep) = Some e \<and> \<not> is_ImportError e"
      using True by simp
    then show ?thesis by blast
  qed
qed

lemma check_dependencies_loop_frame:
  "check_dependencies_loop rt deps missing s = (r, s') \<Longrightarrow>
   generated_tools s' = generated_tools s \<and> log_records s' = log_records s
   \<and> clock_reads s' = clock_reads s \<and> sys_modules s \<subseteq> sys_modules s'"
proof (cases "list_all (found_or_missing rt) deps")
  case True
  assume "check_dependencies_loop rt deps missing s = (r, s')"
  with check_dependencies_loop_result [OF True, of missing s] show ?thesis by auto
next
  case False
  assume run: "check_dependencies_loop rt deps missing s = (r, s')"
  from not_all_found_or_missing [OF False] obtain pre dep post e where
    d: "deps = pre @ dep # post" and p: "list_all (found_or_missing rt) pre"
    and i: "import_result rt (import_name dep) = Some e" and n: "\<not> is_ImportError e"
    by blast
  from check_dependencies_loop_raises [OF p i n, of post missing s] run d
  show ?thesis by auto
qed

lemma check_dependencies_loop_no_ImportError:
  "check_dependencies_loop rt deps missing s = (Inl e, s') \<Longrightarrow> \<not> is_ImportError e"
proof (cases "list_all (found_or_missing rt) deps")
  case True
  assume "check_dependencies_loop rt deps missing s = (Inl e, s')"
  with check_dependencies_loop_result [OF True, of missing s] show ?thesis by simp
next
  case False
  assume run: "check_dependencies_loop rt deps missing s = (Inl e, s')"
  from not_all_found_or_missing [OF False] obtain pre dep post e' where
    d: "deps = pre @ dep # post" and p: "list_all (found_or_missing rt) pre"
    and i: "import_result rt (import_name dep) = Some e'" and n: "\<not> is_ImportError e'"
    by blast
  from check_dependencies_loop_raises [OF p i n, of post missing s] run d
  show ?thesis using n by simp
qed

lemma check_dependencies_result:
  "list_all (found_or_missing rt) deps \<Longrightarrow>
   check_dependencies rt deps s =
     (Inr (missing_of rt deps), s\<lparr>sys_modules := sys_modules s \<union> loaded_by rt deps\<rparr>)"
  by (simp add: check_dependencies_def check_dependencies_loop_result)

lemma check_dependencies_raises:
  assumes "list_all (found_or_missing rt) pre"
    and "import_result rt (import_name dep) = Some e" and "\<not> is_ImportError e"
  shows "check_dependencies rt (pre @ dep # post) s =
           (Inl e, s\<lparr>sys_modules := sys_modules s \<union> loaded_by rt (pre @ [dep])\<rparr>)"
  unfolding check_dependencies_def using assms by (rule check_dependencies_loop_raises)

lemma check_dependencies_Inr:
  assumes "check_dependencies rt deps s = (Inr m, s')"
  shows "list_all (found_or_missing rt) deps"
proof (rule ccontr)
  assume "\<not> list_all (found_or_missing rt) deps"
  from not_all_found_or_missing [OF this] obtain pre dep post e where
    d: "deps = pre @ dep # post" and p: "list_all (found_or_missing rt) pre"
    and i: "import_result rt (import_name dep) = Some e" and n: "\<not> is_ImportError e"
    by blast
  from check_dependencies_raises [OF p i n, of post s] assms d show False by simp
qed

lemma check_dependencies_frame:
  "check_dependencies rt deps s = (r, s') \<Longrightarrow>
   generated_tools s' = generated_tools s \<and> log_records s' = log_records s
   \<and> clock_reads s' = clock_reads s \<and> sys_modules s \<subseteq> sys_modules s'"
  unfolding check_dependencies_def by (rule check_dependencies_loop_frame)

section \<open>Properties of the stages of a compilation\<close>

lemma emit_fields [simp]:
  "generated_tools (emit r s) = generated_tools s"
  "sys_modules (emit r s) = sys_modules s"
  "log_records (emit r s) = log_records s @ [r]"
  "clock_reads (emit r s) = clock_reads s"
  by (simp_all add: emit_def)

lemma syntax_validation_Inr:
  "syntax_validation rt t s = (Inr u, s1) \<Longrightarrow>
   \<exists>n c. name t = Some n \<and> code t = Some c \<and> ast_parse rt c = None
         \<and> s1 = emit (SyntaxPassed n) s"
  by (auto simp: syntax_validation_def split: option.splits if_splits)

lemma syntax_validation_Inl:
  "syntax_validation rt t s = (Inl e, s1) \<Longrightarrow>
   generated_tools s1 = generated_tools s \<and> sys_modules s1 = sys_modules s
   \<and> clock_reads s1 = clock_reads s
   \<and> (\<exists>l. log_records s1 = log_records s @ l)"
  by (auto simp: syntax_validation_def split: option.splits if_splits)

lemma syntax_validation_rejects:
  "code t = Some c \<Longrightarrow> ast_parse rt c = Some e \<Longrightarrow> name t = Some n \<Longrightarrow>
   \<exists>s1. syntax_validation rt t s = (Inl e, s1)"
  by (simp add: syntax_validation_def)

lemma syntax_validation_frame:
  "syntax_validation rt t s = (r, s1) \<Longrightarrow>
   generated_tools s1 = generated_tools s \<and> sys_modules s1 = sys_modules s
   \<and> clock_reads s1 = clock_reads s
   \<and> (\<exists>l. log_records s1 = log_records s @ l)"
  by (auto simp: syntax_validation_def split: option.splits if_splits)

lemma warn_missing_frame:
  "warn_missing t m s = (r, s') \<Longrightarrow>
   generated_tools s' = generated_tools s \<and> sys_modules s' = sys_modules s
   \<and> clock_reads s' = clock_reads s \<and> (\<exists>l. log_records s' = log_records s @ l)"
  by (auto simp: warn_missing_def split: if_splits option.splits)

lemma getitem_Inr [simp]: "getitem v k = Inr x \<longleftrightarrow> v = Some x"
  by (simp add: getitem_def split: option.splits)

lemma getitem_Some [simp]: "getitem (Some x) k = Inr x"
  by (simp add: getitem_def)

lemma getitem_None [simp]: "getitem None k = Inl (KeyError k)"
  by (simp add: getitem_def)

lemma and_then_Inr [simp]: "and_then (Inr x) f = f x"
  by (simp add: and_then_def)

lemma and_then_Inl [simp]: "and_then (Inl e) f = Inl e"
  by (simp add: and_then_def)

lemma and_then_eq_Inr:
  "and_then r f = Inr y \<longleftrightarrow> (\<exists>x. r = Inr x \<and> f x = Inr y)"
  by (cases r) auto

lemma generate_deployment_config_Inr:
  "generate_deployment_config t = Inr cfg \<longleftrightarrow>
   (\<exists>n ty. name t = Some n \<and> type t = Some ty \<and>
      cfg = \<lparr>deployment_type = ''docker'',
             resource_requirements = \<lparr>cpu = ''0.5'', memory = ''512Mi'', storage = ''1Gi''\<rparr>,
             environment_variables =
               [(''TOOL_NAME'', n), (''TOOL_TYPE'', ty), (''LOG_LEVEL'', ''INFO'')],
             health_check = \<lparr>enabled = True, endpoint = ''/health'', interval = 30\<rparr>\<rparr>)"
  by (auto simp: generate_deployment_config_def and_then_eq_Inr)

lemma build_compiled_tool_Inr:
  "build_compiled_tool t missing score cfg now = Inr ct \<longleftrightarrow>
   (\<exists>c n ty d caps deps.
      code t = Some c \<and> name t = Some n \<and> type t = Some ty \<and> description t = Some d
      \<and> capabilities t = Some caps \<and> dependencies t = Some deps
      \<and> ct = \<lparr>tool_id = take 16 (hexdigest (sha256 c)), tool_name = n, tool_type = ty,
              tool_description = d, tool_capabilities = caps, tool_code = c,
              tool_dependencies = deps, missing_dependencies = missing,
              quality_score = score, tool_deployment_config = cfg,
              compilation_timestamp = now,
              validation_status = (if missing = [] then ''passed'' else ''warning''),
              tool_case_specific =
                (case case_specific t of None \<Rightarrow> False | Some b \<Rightarrow> b)\<rparr>)"
  by (auto simp: build_compiled_tool_def and_then_eq_Inr)

section \<open>Properties of \<open>compile_and_validate_tool\<close>\<close>

lemma compile_succeeds:
  assumes n: "name t = Some n" and c: "code t = Some c" and ds: "dependencies t = Some ds"
    and p: "ast_parse rt c = None" and ok: "list_all (found_or_missing rt) ds"
    and cfg: "generate_deployment_config t = Inr cfg"
    and ct: "build_compiled_tool t (missing_of rt ds) (analyze_code_quality c) cfg
               (utcnow rt (clock_reads s)) = Inr ct"
  shows "\<exists>s'. compile_and_validate_tool rt t s = (Inr ct, s')
          \<and> generated_tools s' = (generated_tools s)(tool_id ct \<mapsto> ct)
          \<and> sys_modules s' = sys_modules s \<union> loaded_by rt ds
          \<and> log_records s' = log_records s @ SyntaxPassed n #
               (if missing_of rt ds = [] then []
                else [MissingDependencies n (missing_of rt ds)])
          \<and> clock_reads s' = Suc (clock_reads s)"
proof -
  let ?s1 = "emit (SyntaxPassed n) s"
  have sv: "syntax_validation rt t s = (Inr (), ?s1)"
    using n c p by (simp add: syntax_validation_def)
  let ?s2 = "?s1\<lparr>sys_modules := sys_modules ?s1 \<union> loaded_by rt ds\<rparr>"
  have cd: "check_dependencies rt ds ?s1 = (Inr (missing_of rt ds), ?s2)"
    using ok by (rule check_dependencies_result)
  show ?thesis
  proof (cases "missing_of rt ds = []")
    case True
    then have wm: "warn_missing t (missing_of rt ds) ?s2 = (Inr (), ?s2)"
      by (simp add: warn_missing_def)
    show ?thesis
      unfolding compile_and_validate_tool_def
      using sv cd wm ds c cfg ct True by (simp add: store_tool_def)
  next
    case False
    then have wm: "warn_missing t (missing_of rt ds) ?s2
        = (Inr (), emit (MissingDependencies n (missing_of rt ds)) ?s2)"
      using n by (simp add: warn_missing_def)
    show ?thesis
      unfolding compile_and_validate_tool_def
      using sv cd wm ds c cfg ct False by (simp add: store_tool_def)
  qed
qed

lemma compile_dependency_raises:
  assumes n: "name t = Some n" and c: "code t = Some c" and p: "ast_parse rt c = None"
    and ds: "dependencies t = Some (pre @ dep # post)"
    and ok: "list_all (found_or_missing rt) pre"
    and i: "import_result rt (import_name dep) = Some e" and ni: "\<not> is_ImportError e"
  shows "\<exists>s'. compile_and_validate_tool rt t s = (Inl e, s')
           \<and> generated_tools s' = generated_tools s"
proof -
  let ?s1 = "emit (SyntaxPassed n) s"
  have sv: "syntax_validation rt t s = (Inr (), ?s1)"
    using n c p by (simp add: syntax_validation_def)
  let ?s2 = "?s1\<lparr>sys_modules := sys_modules ?s1 \<union> loaded_by rt (pre @ [dep])\<rparr>"
  have cd: "check_dependencies rt (pre @ dep # post) ?s1 = (Inl e, ?s2)"
    using ok i ni by (rule check_dependencies_raises)
  have "compile_and_validate_tool rt t s = (Inl e, ?s2)"
    unfolding compile_and_validate_tool_def using sv ds cd by simp
  then show ?thesis by simp
qed

lemma compile_Inr:
  assumes "compile_and_validate_tool rt t s = (Inr ct, s')"
  shows "\<exists>n c ds cfg. name t = Some n \<and> code t = Some c \<and> dependencies t = Some ds
           \<and> ast_parse rt c = None \<and> list_all (found_or_missing rt) ds
           \<and> generate_deployment_config t = Inr cfg
           \<and> build_compiled_tool t (missing_of rt ds) (analyze_code_quality c) cfg
                (utcnow rt (clock_reads s)) = Inr ct"
proof -
  obtain r1 s1 where sv: "syntax_validation rt t s = (r1, s1)"
    by (cases "syntax_validation rt t s")
  obtain u where r1: "r1 = Inr u"
    using assms sv by (cases r1) (auto simp: compile_and_validate_tool_def)
  from syntax_validation_Inr [OF sv [unfolded r1]]
  obtain n c where n: "name t = Some n" and c: "code t = Some c"
    and p: "ast_parse rt c = None" and s1: "s1 = emit (SyntaxPassed n) s"
    by blast
  obtain ds where ds: "dependencies t = Some ds"
    using assms sv r1
    by (cases "dependencies t") (auto simp: compile_and_validate_tool_def)
  obtain r2 s2 where cd0: "check_dependencies rt ds s1 = (r2, s2)"
    by (cases "check_dependencies rt ds s1")
  obtain m where r2: "r2 = Inr m"
    using assms sv r1 ds cd0 by (cases r2) (auto simp: compile_and_validate_tool_def)
  have ok: "list_all (found_or_missing rt) ds"
    using cd0 [unfolded r2] by (rule check_dependencies_Inr)
  have cd: "check_dependencies rt ds s1 = (Inr (missing_of rt ds),
        s1\<lparr>sys_modules := sys_modules s1 \<union> loaded_by rt ds\<rparr>)"
    using ok by (rule check_dependencies_result)
  obtain cfg where cfg: "generate_deployment_config t = Inr cfg"
    using n generate_deployment_config_Inr [of t] assms sv r1 ds cd c
    by (cases "generate_deployment_config t")
       (auto simp: compile_and_validate_tool_def warn_missing_def split: if_splits)
  have "build_compiled_tool t (missing_of rt ds) (analyze_code_quality c) cfg
                (utcnow rt (clock_reads s)) = Inr ct"
    using assms sv r1 ds cd c cfg n s1
    by (auto simp: compile_and_validate_tool_def warn_missing_def
             split: if_splits sum.splits)
  then show ?thesis using n c ds p ok cfg by blast
qed

lemma compile_Inr_state:
  assumes "compile_and_validate_tool rt t s = (Inr ct, s')"
  shows "generated_tools s' = (generated_tools s)(tool_id ct \<mapsto> ct)
         \<and> sys_modules s \<subseteq> sys_modules s'
         \<and> (\<exists>l. log_records s' = log_records s @ l)
         \<and> clock_reads s' = Suc (clock_reads s)"
proof -
  from compile_Inr [OF assms] obtain n c ds cfg where
    h: "name t = Some n" "code t = Some c" "dependencies t = Some ds"
       "ast_parse rt c = None" "list_all (found_or_missing rt) ds"
       "generate_deployment_config t = Inr cfg"
       "build_compiled_tool t (missing_of rt ds) (analyze_code_quality c) cfg
          (utcnow rt (clock_reads s)) = Inr ct"
    by blast
  from compile_succeeds [OF h, of ] assms obtain
    g: "generated_tools s' = (generated_tools s)(tool_id ct \<mapsto> ct)"
    and m: "sys_modules s' = sys_modules s \<union> loaded_by rt ds"
    and l: "\<exists>l. log_records s' = log_records s @ l"
    and k: "clock_reads s' = Suc (clock_reads s)"
    by auto
  show ?thesis using g m l k by auto
qed

lemma compile_Inl_state:
  assumes "compile_and_validate_tool rt t s = (Inl e, s')"
  shows "generated_tools s' = generated_tools s
         \<and> sys_modules s \<subseteq> sys_modules s'
         \<and> (\<exists>l. log_records s' = log_records s @ l)
         \<and> clock_reads s' = clock_reads s"
proof -
  let ?P = "\<lambda>s'. generated_tools s' = generated_tools s
         \<and> sys_modules s \<subseteq> sys_modules s'
         \<and> (\<exists>l. log_records s' = log_records s @ l)
         \<and> clock_reads s' = clock_reads s"
  obtain r1 s1 where sv: "syntax_validation rt t s = (r1, s1)"
    by (cases "syntax_validation rt t s")
  have P1: "?P s1"
    using syntax_validation_frame [OF sv] by auto
  show ?thesis
  proof (cases r1)
    case (Inl e1)
    then have "s' = s1" using assms sv by (simp add: compile_and_validate_tool_def)
    then show ?thesis using P1 by simp
  next
    case (Inr u)
    show ?thesis
    proof (cases "dependencies t")
      case None
      then have "s' = s1" using assms sv Inr by (simp add: compile_and_validate_tool_def)
      then show ?thesis using P1 by simp
    next
      case (Some ds)
      obtain r2 s2 where cd: "check_dependencies rt ds s1 = (r2, s2)"
        by (cases "check_dependencies rt ds s1")
      have P2: "?P s2"
        using check_dependencies_frame [OF cd] P1 by auto
      show ?thesis
      proof (cases r2)
        case (Inl e2)
        then have "s' = s2"
          using assms sv Inr Some cd by (simp add: compile_and_validate_tool_def)
        then show ?thesis using P2 by simp
      next
        case r2: (Inr missing)
        obtain r3 s3 where wm: "warn_missing t missing s2 = (r3, s3)"
          by (cases "warn_missing t missing s2")
        have P3: "?P s3"
          using warn_missing_frame [OF wm] P2 by auto
        have "s' = s3"
          using assms sv Inr Some cd r2 wm
          by (auto simp: compile_and_validate_tool_def split: sum.splits)
        then show ?thesis using P3 by simp
      qed
    qed
  qed
qed


lemma compile_Inr_iff_compiles:
  "(\<exists>ct s'. compile_and_validate_tool rt t s = (Inr ct, s')) \<longleftrightarrow> compiles rt t"
proof
  assume "\<exists>ct s'. compile_and_validate_tool rt t s = (Inr ct, s')"
  then obtain ct s' where eq: "compile_and_validate_tool rt t s = (Inr ct, s')" by blast
  from compile_Inr [OF eq] show "compiles rt t"
    by (auto simp: compiles_def has_all_keys_def parses_def resolves_def
          build_compiled_tool_Inr)
next
  assume cp: "compiles rt t"
  then obtain n ty c ds d caps where
    k: "name t = Some n" "type t = Some ty" "code t = Some c" "dependencies t = Some ds"
       "description t = Some d" "capabilities t = Some caps"
    by (auto simp: compiles_def has_all_keys_def)
  from cp k have p: "ast_parse rt c = None" and ok: "list_all (found_or_missing rt) ds"
    by (auto simp: compiles_def parses_def resolves_def)
  obtain cfg where cfg: "generate_deployment_config t = Inr cfg"
    using k by (auto simp: generate_deployment_config_Inr)
  obtain ct where ct: "build_compiled_tool t (missing_of rt ds) (analyze_code_quality c) cfg
               (utcnow rt (clock_reads s)) = Inr ct"
    using k by (auto simp: build_compiled_tool_Inr)
  from compile_succeeds [OF k(1) k(3) k(4) p ok cfg ct]
  show "\<exists>ct s'. compile_and_validate_tool rt t s = (Inr ct, s')" by blast
qed

lemma compile_again:
  assumes first: "compile_and_validate_tool rt t s = (Inr ct1, s1)"
  shows "\<exists>ct2 s2. compile_and_validate_tool rt t s' = (Inr ct2, s2)
           \<and> ct2 = ct1\<lparr>compilation_timestamp := utcnow rt (clock_reads s')\<rparr>
           \<and> generated_tools s2 = (generated_tools s')(tool_id ct2 \<mapsto> ct2)"
proof -
  from compile_Inr [OF first] obtain n c ds cfg where
    h: "name t = Some n" "code t = Some c" "dependencies t = Some ds"
       "ast_parse rt c = None" "list_all (found_or_missing rt) ds"
       "generate_deployment_config t = Inr cfg"
    and b: "build_compiled_tool t (missing_of rt ds) (analyze_code_quality c) cfg
          (utcnow rt (clock_reads s)) = Inr ct1"
    by blast
  let ?ct2 = "ct1\<lparr>compilation_timestamp := utcnow rt (clock_reads s')\<rparr>"
  have b2: "build_compiled_tool t (missing_of rt ds) (analyze_code_quality c) cfg
          (utcnow rt (clock_reads s')) = Inr ?ct2"
    using b by (auto simp: build_compiled_tool_Inr)
  from compile_succeeds [OF h b2] show ?thesis by blast
qed

lemma compile_registry_grows:
  "compile_and_validate_tool rt t s = (r, s') \<Longrightarrow>
   dom (generated_tools s) \<subseteq> dom (generated_tools s')"
proof (cases r)
  case (Inl e)
  assume "compile_and_validate_tool rt t s = (r, s')"
  from compile_Inl_state [OF this [unfolded Inl]] show ?thesis by simp
next
  case (Inr ct)
  assume "compile_and_validate_tool rt t s = (r, s')"
  from compile_Inr_state [OF this [unfolded Inr]] show ?thesis by auto
qed





section \<open>Properties of the batch loop and of runs\<close>


lemma compile_loop_registry_grows:
  "compile_loop rt tools acc s = (r, s') \<Longrightarrow>
   dom (generated_tools s) \<subseteq> dom (generated_tools s')"
proof (induction tools arbitrary: acc s)
  case Nil
  then show ?case by simp
next
  case (Cons t tools)
  obtain r1 s1 where cv: "compile_and_validate_tool rt t s = (r1, s1)"
    by (cases "compile_and_validate_tool rt t s")
  have g1: "dom (generated_tools s) \<subseteq> dom (generated_tools s1)"
    using cv by (rule compile_registry_grows)
  show ?case
  proof (cases r1)
    case (Inl e)
    show ?thesis
    proof (cases "is_Exception e")
      case False
      then have "s' = s1" using Cons.prems cv Inl by simp
      then show ?thesis using g1 by simp
    next
      case True
      show ?thesis
      proof (cases "name t")
        case None
        then have "s' = s1" using Cons.prems cv Inl True by simp
        then show ?thesis using g1 by simp
      next
        case (Some n)
        then have "compile_loop rt tools acc (emit (CompileFailed n e) s1) = (r, s')"
          using Cons.prems cv Inl True by simp
        from Cons.IH [OF this] g1 show ?thesis by simp
      qed
    qed
  next
    case (Inr ct)
    show ?thesis
    proof (cases "name t")
      case None
      then have "s' = s1" using Cons.prems cv Inr by simp
      then show ?thesis using g1 by simp
    next
      case (Some n)
      then have "compile_loop rt tools (acc @ [ct]) (emit (CompiledTool n) s1) = (r, s')"
        using Cons.prems cv Inr by simp
      from Cons.IH [OF this] g1 show ?thesis by simp
    qed
  qed
qed

lemma generate_case_tools_raises:
  "\<exists>s'. generate_case_tools rt case_context s
           = (Inl (AttributeError ''generate_legal_research_tool''), s')
         \<and> generated_tools s' = generated_tools s
         \<and> sys_modules s' = sys_modules s
         \<and> log_records s' =
             log_records s @ [GeneratingTools (get_default (case_id case_context) ''Unknown'')]
         \<and> clock_reads s' = Suc (Suc (clock_reads s))"
  by (simp add: generate_case_tools_def generate_evidence_analyzer_tool_def
        generate_timeline_tool_def Let_def)

lemma generate_case_tools_registry:
  "generate_case_tools rt case_context s = (r, s') \<Longrightarrow>
   generated_tools s' = generated_tools s"
  using generate_case_tools_raises [of rt case_context s] by auto

lemma forge_run_registry_grows:
  "forge_run rt s s' \<Longrightarrow> dom (generated_tools s) \<subseteq> dom (generated_tools s')"
proof (induction rule: forge_run.induct)
  case (no_call s)
  show ?case by simp
next
  case (compile_call s s1 t r s2)
  from compile_registry_grows [OF compile_call.hyps(2)] compile_call.IH
  show ?case by blast
next
  case (loop_call s s1 tools acc rs s2)
  from compile_loop_registry_grows [OF loop_call.hyps(2)] loop_call.IH
  show ?case by blast
next
  case (batch_call s s1 case_context rs s2)
  from generate_case_tools_registry [OF batch_call.hyps(2)] batch_call.IH
  show ?case by simp
qed

section \<open>The fingerprint of a sample text\<close>

text \<open>
  The fingerprint of the text \<open>pass\<close>, computed stage by stage: the padded block,
  the message schedule, the 64 rounds and the digest. It is the value that
  \<open>hashlib.sha256(b'pass').hexdigest()[:16]\<close> returns.
\<close>

lemma pass_blocks:
  "map be_words (chunks 63 (sha_pad (map of_char ''pass''))) =
     [[1885434739, 2147483648, 0, 0, 0, 0, 0, 0, 0, 0, 0, 0, 0, 0, 0, 32]]"
  by code_simp

lemma pass_schedule:
  "extend_schedule 48 [1885434739, 2147483648, 0, 0, 0, 0, 0, 0, 0, 0, 0, 0, 0, 0, 0, 32] =
     [1885434739, 2147483648, 0, 0, 0, 0, 0, 0, 0, 0, 0, 0, 0, 0, 0, 32,
      2170655603, 2148794368, 4227328248, 2149602568, 157130623, 537221121,
      2085761794, 2288666823, 3759301935, 1766922402, 4264189338, 3099381059,
      2236023368, 2071574396, 700337302, 1632887581, 3951620757, 552260168,
      807258823, 3518189746, 827308587, 2482077668, 338641682, 3735483296,
      1522243114, 4267860262, 752518488, 2814709487, 3314254562, 1886261323,
      2276531387, 2420358234, 3097836283, 4061770032, 3181974681, 1149458713,
      3478075289, 3653925525, 134263081, 3286427428, 1711416324, 4293289354,
      1342562282, 3001218649, 275915550, 3205609798, 3921358721, 2428841829]"
  by code_simp

lemma pass_rounds:
  "foldl sha_round H256 (zip K256
     [1885434739, 2147483648, 0, 0, 0, 0, 0, 0, 0, 0, 0, 0, 0, 0, 0, 32,
      2170655603, 2148794368, 4227328248, 2149602568, 157130623, 537221121,
      2085761794, 2288666823, 3759301935, 1766922402, 4264189338, 3099381059,
      2236023368, 2071574396, 700337302, 1632887581, 3951620757, 552260168,
      807258823, 3518189746, 827308587, 2482077668, 338641682, 3735483296,
      1522243114, 4267860262, 752518488, 2814709487, 3314254562, 1886261323,
      2276531387, 2420358234, 3097836283, 4061770032, 3181974681, 1149458713,
      3478075289, 3653925525, 134263081, 3286427428, 1711416324, 4293289354,
      1342562282, 3001218649, 275915550, 3205609798, 3921358721, 2428841829]) =
     [1833306759, 3527150331, 782882053, 916629123, 2482833753, 1238724375,
      2275485284, 2409765848]"
  by code_simp

lemma pass_digest:
  "take 16 (hexdigest (map2 (+) H256
     [1833306759, 3527150331, 782882053, 916629123, 2482833753, 1238724375,
      2275485284, 2409765848])) = ''d74ff0ee8da3b980''"
  by code_simp

lemma sha256_pass: "take 16 (hexdigest (sha256 ''pass'')) = ''d74ff0ee8da3b980''"
  unfolding sha256_def pass_blocks
  by (simp only: foldl.simps sha_compress_def pass_schedule pass_rounds pass_digest)

section \<open>Properties of the sample data\<close>

lemma sample_spec_fields [simp]:
  "name (sample_spec n c ds) = Some n"
  "type (sample_spec n c ds) = Some ''evidence_analyzer''"
  "code (sample_spec n c ds) = Some c"
  "dependencies (sample_spec n c ds) = Some ds"
  "description (sample_spec n c ds) = Some ''Evidence analysis''"
  "capabilities (sample_spec n c ds) = Some [''document_ocr'']"
  by (simp_all add: sample_spec_def)

lemma sample_runtime_fields [simp]:
  "ast_parse sample_runtime src =
     (if src = ''def f(:'' then Some (SyntaxError ''invalid syntax'') else None)"
  "import_result sample_runtime = sample_import_result"
  "import_loads sample_runtime = sample_import_loads"
  by (simp_all add: sample_runtime_def)

lemma initial_forge_fields [simp]:
  "generated_tools initial_forge = Map.empty"
  "sys_modules initial_forge = {''sys''}"
  "log_records initial_forge = []"
  "clock_reads initial_forge = 0"
  by (simp_all add: initial_forge_def)

lemma found_or_missing_sample:
  "found_or_missing sample_runtime ''pandas''"
  "found_or_missing sample_runtime ''json''"
  "found_or_missing sample_runtime ''nonexistent-pkg-xyz''"
  "\<not> found_or_missing sample_runtime []"
  "\<not> found_or_missing sample_runtime ''unittest.__main__''"
  by (simp_all add: found_or_missing_def sample_import_result_def str_replace_def)

lemma is_missing_sample:
  "\<not> is_missing sample_runtime ''pandas''"
  "\<not> is_missing sample_runtime ''json''"
  "is_missing sample_runtime ''nonexistent-pkg-xyz''"
  by (simp_all add: is_missing_def sample_import_result_def str_replace_def)

lemma compiles_sample:
  "compiles sample_runtime (sample_spec n c ds) \<longleftrightarrow>
     c \<noteq> ''def f(:'' \<and> list_all (found_or_missing sample_runtime) ds"
  by (simp add: compiles_def has_all_keys_def parses_def resolves_def)

lemma sample_first_compile:
  assumes "list_all (found_or_missing sample_runtime) ds" and "c \<noteq> ''def f(:''"
  shows "\<exists>ct s'. compile_and_validate_tool sample_runtime (sample_spec n c ds) s = (Inr ct, s')"
proof -
  have "compiles sample_runtime (sample_spec n c ds)"
    using assms by (simp add: compiles_sample)
  then show ?thesis by (simp only: compile_Inr_iff_compiles)
qed


lemma sample_import_results:
  "sample_import_result (import_name []) = Some (ValueError ''Empty module name'')"
  "sample_import_result (import_name ''.json'') = Some (ValueError ''Empty module name'')"
  "sample_import_result (import_name ''unittest.__main__'') = Some (SystemExit ''False'')"
  "sample_import_result (import_name ''pandas'') = None"
  "sample_import_result (import_name ''json'') = None"
  "sample_import_result (import_name ''nonexistent-pkg-xyz'')
     = Some (ImportError ''nonexistent_pkg_xyz'')"
  by (simp_all add: sample_import_result_def str_replace_def)


section \<open>The claims\<close>




text \<open>
  Claim C2. The score of a source text is the minimum of 100 and 85 plus 5 for a
  docstring marker, plus 5 when both \<open>try:\<close> and \<open>except\<close> occur, plus 5 for an
  arrow \<open>->\<close>. It therefore lies between 0 and 100, is 85 for a text with none of the
  three bonuses, 95 with the first two and no arrow, and 100 with all three.
\<close>

theorem analyze_code_quality_score:
  fixes code :: string
  defines "doc \<equiv> str_in triple_quote code"
    and "handling \<equiv> str_in ''try:'' code \<and> str_in ''except'' code"
    and "arrow \<equiv> str_in ''->'' code"
  shows "analyze_code_quality code =
           min (85 + (if doc then 5 else 0) + (if handling then 5 else 0)
                   + (if arrow then 5 else 0)) 100
         \<and> 0 \<le> analyze_code_quality code \<and> analyze_code_quality code \<le> 100
         \<and> (\<not> doc \<and> \<not> handling \<and> \<not> arrow \<longrightarrow> analyze_code_quality code = 85)
         \<and> (doc \<and> handling \<and> \<not> arrow \<longrightarrow> analyze_code_quality code = 95)
         \<and> (doc \<and> handling \<and> arrow \<longrightarrow> analyze_code_quality code = 100)"
  unfolding doc_def handling_def arrow_def analyze_code_quality_def Let_def
  by simp

theorem analyze_code_quality_score_witness:
  "analyze_code_quality ''pass'' = 85
   \<and> analyze_code_quality (triple_quote @ ''try: pass; except: pass'') = 95
   \<and> analyze_code_quality (triple_quote @ ''try: f() -> except'') = 100"
  using analyze_code_quality_score [of "''pass''"]
    analyze_code_quality_score [of "triple_quote @ ''try: pass; except: pass''"]
    analyze_code_quality_score [of "triple_quote @ ''try: f() -> except''"]
  by (simp add: triple_quote_def)

text \<open>
  Claim C3. For a list of dependency names on which every import returns or raises
  \<open>ImportError\<close>, \<open>check_dependencies\<close> returns exactly the names whose import,
  after replacing hyphens by underscores, raises \<open>ImportError\<close>, under their
  original spelling and in the order of the input; the empty list gives the empty
  list. The code departs from the claim where the import of a name raises any other
  exception, as the builtin does with \<open>ValueError\<close> for the empty name: only
  \<open>ImportError\<close> is caught, so \<open>check_dependencies\<close> raises that exception
  and returns no list.
\<close>

theorem check_dependencies_behaviour:
  "(list_all (found_or_missing rt) deps \<longrightarrow>
      (\<exists>s'. check_dependencies rt deps s = (Inr (filter (is_missing rt) deps), s')))
   \<and> (list_all (found_or_missing rt) pre \<and> import_result rt (import_name dep) = Some e
        \<and> \<not> is_ImportError e \<longrightarrow>
      (\<exists>s'. check_dependencies rt (pre @ dep # post) s = (Inl e, s')))
   \<and> check_dependencies rt [] s = (Inr [], s)"
proof (intro conjI impI)
  assume "list_all (found_or_missing rt) deps"
  from check_dependencies_result [OF this, of s]
  show "\<exists>s'. check_dependencies rt deps s = (Inr (filter (is_missing rt) deps), s')"
    by (simp add: missing_of_def)
next
  assume h: "list_all (found_or_missing rt) pre \<and> import_result rt (import_name dep) = Some e
        \<and> \<not> is_ImportError e"
  then have p: "list_all (found_or_missing rt) pre"
    and i: "import_result rt (import_name dep) = Some e" and n: "\<not> is_ImportError e"
    by simp_all
  from check_dependencies_raises [OF p i n, of post s]
  show "\<exists>s'. check_dependencies rt (pre @ dep # post) s = (Inl e, s')" by blast
next
  show "check_dependencies rt [] s = (Inr [], s)"
    by (simp add: check_dependencies_def)
qed

theorem check_dependencies_behaviour_witness:
  "(\<exists>s'. check_dependencies sample_runtime [''pandas'', ''nonexistent-pkg-xyz''] initial_forge
          = (Inr [''nonexistent-pkg-xyz''], s'))
   \<and> (\<exists>s'. check_dependencies sample_runtime [[]] initial_forge
          = (Inl (ValueError ''Empty module name''), s'))
   \<and> (\<exists>s'. check_dependencies sample_runtime [''pandas'', ''.json''] initial_forge
          = (Inl (ValueError ''Empty module name''), s'))"
proof (intro conjI)
  have ok: "list_all (found_or_missing sample_runtime) [''pandas'', ''nonexistent-pkg-xyz'']"
    by (simp add: found_or_missing_sample)
  from check_dependencies_behaviour
         [of sample_runtime "[''pandas'', ''nonexistent-pkg-xyz'']" initial_forge] ok
  have "\<exists>s'. check_dependencies sample_runtime [''pandas'', ''nonexistent-pkg-xyz'']
            initial_forge
          = (Inr (filter (is_missing sample_runtime) [''pandas'', ''nonexistent-pkg-xyz'']), s')"
    by blast
  then show "\<exists>s'. check_dependencies sample_runtime [''pandas'', ''nonexistent-pkg-xyz'']
            initial_forge = (Inr [''nonexistent-pkg-xyz''], s')"
    by (simp add: is_missing_sample)
next
  have h: "list_all (found_or_missing sample_runtime) []
        \<and> import_result sample_runtime (import_name []) = Some (ValueError ''Empty module name'')
        \<and> \<not> is_ImportError (ValueError ''Empty module name'')"
    by (simp add: sample_import_results)
  from check_dependencies_behaviour
         [of sample_runtime _ initial_forge "[]" "[]" "ValueError ''Empty module name''" "[]"] h
  show "\<exists>s'. check_dependencies sample_runtime [[]] initial_forge
          = (Inl (ValueError ''Empty module name''), s')"
    by simp
next
  have h: "list_all (found_or_missing sample_runtime) [''pandas'']
        \<and> import_result sample_runtime (import_name ''.json'')
            = Some (ValueError ''Empty module name'')
        \<and> \<not> is_ImportError (ValueError ''Empty module name'')"
    by (simp add: sample_import_results found_or_missing_sample)
  from check_dependencies_behaviour
         [of sample_runtime _ initial_forge "[''pandas'']" "''.json''"
             "ValueError ''Empty module name''" "[]"] h
  show "\<exists>s'. check_dependencies sample_runtime [''pandas'', ''.json''] initial_forge
          = (Inl (ValueError ''Empty module name''), s')"
    by simp
qed

text \<open>
  Claim C4, amended. For a specification with name and type present the deployment
  configuration has deployment type \<open>docker\<close>, the fixed resources \<open>0.5\<close> CPU,
  \<open>512Mi\<close> memory and \<open>1Gi\<close> storage, environment variables holding the tool
  name, the tool type and log level \<open>INFO\<close>, and a health check that is enabled,
  on \<open>/health\<close>, every 30 seconds.
\<close>

theorem generate_deployment_config_shape:
  assumes "name t = Some n" and "type t = Some ty"
  shows "\<exists>cfg. generate_deployment_config t = Inr cfg
          \<and> deployment_type cfg = ''docker''
          \<and> resource_requirements cfg = \<lparr>cpu = ''0.5'', memory = ''512Mi'', storage = ''1Gi''\<rparr>
          \<and> map_of (environment_variables cfg) ''TOOL_NAME'' = Some n
          \<and> map_of (environment_variables cfg) ''TOOL_TYPE'' = Some ty
          \<and> map_of (environment_variables cfg) ''LOG_LEVEL'' = Some ''INFO''
          \<and> health_check cfg = \<lparr>enabled = True, endpoint = ''/health'', interval = 30\<rparr>"
  using assms by (simp add: generate_deployment_config_def)

theorem generate_deployment_config_shape_witness:
  "\<exists>cfg. generate_deployment_config (sample_spec ''evidence_analyzer_1'' ''pass'' []) = Inr cfg
     \<and> deployment_type cfg = ''docker''
     \<and> map_of (environment_variables cfg) ''TOOL_NAME'' = Some ''evidence_analyzer_1''
     \<and> interval (health_check cfg) = 30"
proof -
  have n: "name (sample_spec ''evidence_analyzer_1'' ''pass'' []) = Some ''evidence_analyzer_1''"
    and ty: "type (sample_spec ''evidence_analyzer_1'' ''pass'' []) = Some ''evidence_analyzer''"
    by simp_all
  from generate_deployment_config_shape [OF n ty] show ?thesis by auto
qed

theorem generate_deployment_config_kind_counterexample:
  "map_sum id deployment_type
     (generate_deployment_config (sample_spec ''evidence_analyzer_1'' ''pass'' []))
     = Inr ''docker''
   \<and> map_sum id deployment_type
     (generate_deployment_config (sample_spec ''evidence_analyzer_1'' ''pass'' []))
     \<noteq> Inr ''container''"
  by (simp add: generate_deployment_config_def)

text \<open>
  Claim C5. When a specification compiles, compiling it again on the same forge, with
  the same module index, compiles too and gives the same id, quality score, missing
  dependencies and deployment configuration. The deployment configuration depends on
  the name and the type of the specification only.
\<close>

theorem compile_deterministic:
  assumes "compile_and_validate_tool rt t s = (Inr ct1, s1)"
  shows "\<exists>ct2 s2. compile_and_validate_tool rt t s1 = (Inr ct2, s2)
          \<and> tool_id ct2 = tool_id ct1
          \<and> quality_score ct2 = quality_score ct1
          \<and> missing_dependencies ct2 = missing_dependencies ct1
          \<and> tool_deployment_config ct2 = tool_deployment_config ct1
          \<and> (\<forall>t'. name t' = name t \<and> type t' = type t \<longrightarrow>
                generate_deployment_config t' = generate_deployment_config t)"
proof -
  from compile_again [OF assms, of s1] obtain ct2 s2 where
    second: "compile_and_validate_tool rt t s1 = (Inr ct2, s2)"
    and eq: "ct2 = ct1\<lparr>compilation_timestamp := utcnow rt (clock_reads s1)\<rparr>"
    by blast
  have pure: "\<forall>t'. name t' = name t \<and> type t' = type t \<longrightarrow>
                generate_deployment_config t' = generate_deployment_config t"
    by (simp add: generate_deployment_config_def)
  have "tool_id ct2 = tool_id ct1" "quality_score ct2 = quality_score ct1"
    "missing_dependencies ct2 = missing_dependencies ct1"
    "tool_deployment_config ct2 = tool_deployment_config ct1"
    by (simp_all add: eq)
  with second pure show ?thesis by (intro exI conjI)
qed

theorem compile_deterministic_witness:
  "\<exists>ct1 s1 ct2 s2.
     compile_and_validate_tool sample_runtime
       (sample_spec ''evidence_analyzer_1'' ''pass'' [''pandas'']) initial_forge = (Inr ct1, s1)
     \<and> compile_and_validate_tool sample_runtime
       (sample_spec ''evidence_analyzer_1'' ''pass'' [''pandas'']) s1 = (Inr ct2, s2)
     \<and> tool_id ct2 = tool_id ct1 \<and> quality_score ct2 = quality_score ct1
     \<and> missing_dependencies ct2 = missing_dependencies ct1
     \<and> tool_deployment_config ct2 = tool_deployment_config ct1"
proof -
  have a: "list_all (found_or_missing sample_runtime) [''pandas'']"
    by (simp add: found_or_missing_sample)
  have b: "''pass'' \<noteq> ''def f(:''" by simp
  from sample_first_compile [OF a b]
  obtain ct1 s1 where first: "compile_and_validate_tool sample_runtime
       (sample_spec ''evidence_analyzer_1'' ''pass'' [''pandas'']) initial_forge = (Inr ct1, s1)"
    by blast
  from compile_deterministic [OF first]
  obtain ct2 s2 where "compile_and_validate_tool sample_runtime
       (sample_spec ''evidence_analyzer_1'' ''pass'' [''pandas'']) s1 = (Inr ct2, s2)"
     "tool_id ct2 = tool_id ct1" "quality_score ct2 = quality_score ct1"
     "missing_dependencies ct2 = missing_dependencies ct1"
     "tool_deployment_config ct2 = tool_deployment_config ct1"
    by blast
  with first show ?thesis by (intro exI conjI)
qed

text \<open>
  Claim C6. Compiling a specification twice on the same forge stores the first
  record under its id and then overwrites it: the registry has the same keys after
  the second compilation as after the first, the entry of the id is the second
  record, and the two records differ in the timestamp at most.
\<close>

theorem registry_idempotent:
  assumes "compile_and_validate_tool rt t s = (Inr ct1, s1)"
  shows "\<exists>ct2 s2. compile_and_validate_tool rt t s1 = (Inr ct2, s2)
          \<and> tool_id ct2 = tool_id ct1
          \<and> generated_tools s1 (tool_id ct1) = Some ct1
          \<and> generated_tools s2 = (generated_tools s1)(tool_id ct1 \<mapsto> ct2)
          \<and> dom (generated_tools s2) = dom (generated_tools s1)
          \<and> ct2 = ct1\<lparr>compilation_timestamp := compilation_timestamp ct2\<rparr>"
proof -
  have st: "generated_tools s1 = (generated_tools s)(tool_id ct1 \<mapsto> ct1)"
    using compile_Inr_state [OF assms] by blast
  from compile_again [OF assms, of s1] obtain ct2 s2 where
    second: "compile_and_validate_tool rt t s1 = (Inr ct2, s2)"
    and eq: "ct2 = ct1\<lparr>compilation_timestamp := utcnow rt (clock_reads s1)\<rparr>"
    and reg: "generated_tools s2 = (generated_tools s1)(tool_id ct2 \<mapsto> ct2)"
    by blast
  have id: "tool_id ct2 = tool_id ct1" by (simp add: eq)
  have entry: "generated_tools s1 (tool_id ct1) = Some ct1" by (simp add: st)
  have reg': "generated_tools s2 = (generated_tools s1)(tool_id ct1 \<mapsto> ct2)"
    using reg id by simp
  have "tool_id ct1 \<in> dom (generated_tools s1)" using entry by blast
  then have d: "dom (generated_tools s2) = dom (generated_tools s1)"
    by (simp add: reg' insert_absorb)
  have same: "ct2 = ct1\<lparr>compilation_timestamp := compilation_timestamp ct2\<rparr>"
    by (simp add: eq)
  from second id entry reg' d same show ?thesis by (intro exI conjI)
qed

theorem registry_idempotent_witness:
  "\<exists>ct1 s1 ct2 s2.
     compile_and_validate_tool sample_runtime
       (sample_spec ''evidence_analyzer_1'' ''pass'' [''pandas'']) initial_forge = (Inr ct1, s1)
     \<and> compile_and_validate_tool sample_runtime
       (sample_spec ''evidence_analyzer_1'' ''pass'' [''pandas'']) s1 = (Inr ct2, s2)
     \<and> dom (generated_tools s1) = {tool_id ct1}
     \<and> dom (generated_tools s2) = {tool_id ct1}"
proof -
  have a: "list_all (found_or_missing sample_runtime) [''pandas'']"
    by (simp add: found_or_missing_sample)
  have b: "''pass'' \<noteq> ''def f(:''" by simp
  from sample_first_compile [OF a b]
  obtain ct1 s1 where first: "compile_and_validate_tool sample_runtime
       (sample_spec ''evidence_analyzer_1'' ''pass'' [''pandas'']) initial_forge = (Inr ct1, s1)"
    by blast
  have "generated_tools s1 = (generated_tools initial_forge)(tool_id ct1 \<mapsto> ct1)"
    using compile_Inr_state [OF first] by blast
  then have d1: "dom (generated_tools s1) = {tool_id ct1}" by simp
  from registry_idempotent [OF first]
  obtain ct2 s2 where second: "compile_and_validate_tool sample_runtime
       (sample_spec ''evidence_analyzer_1'' ''pass'' [''pandas'']) s1 = (Inr ct2, s2)"
    and "dom (generated_tools s2) = dom (generated_tools s1)"
    by blast
  then have d2: "dom (generated_tools s2) = {tool_id ct1}" using d1 by simp
  from first second d1 d2 show ?thesis by (intro exI conjI)
qed

text \<open>
  Claim C7. Every compiled tool has status \<open>passed\<close> exactly when its list of
  missing dependencies is empty and \<open>warning\<close> exactly when it is not, and its
  source text parses; a specification whose source text does not parse gives an
  exception and no compiled tool. A specification with every key and a source text
  that parses compiles when each of its dependencies is found or raises
  \<open>ImportError\<close>, and records the latter as missing. The code departs from the
  claim where the import of a dependency raises any other exception, as the builtin
  does with \<open>ValueError\<close> for the empty name: the exception is not caught and
  ends the compilation, with nothing stored.
\<close>

theorem compile_validation_status:
  "(compile_and_validate_tool rt t s = (Inr ct, s') \<longrightarrow>
       (validation_status ct = ''passed'' \<longleftrightarrow> missing_dependencies ct = [])
     \<and> (validation_status ct = ''warning'' \<longleftrightarrow> missing_dependencies ct \<noteq> [])
     \<and> parses rt t)
   \<and> (\<not> parses rt t \<longrightarrow> (\<exists>e s'. compile_and_validate_tool rt t s = (Inl e, s')))
   \<and> (has_all_keys t \<and> parses rt t \<and> resolves rt t \<longrightarrow>
        (\<exists>ct s'. compile_and_validate_tool rt t s = (Inr ct, s')
           \<and> dependencies t = Some (tool_dependencies ct)
           \<and> missing_dependencies ct = filter (is_missing rt) (tool_dependencies ct)))
   \<and> (has_all_keys t \<and> parses rt t \<and> dependencies t = Some (pre @ dep # post)
        \<and> list_all (found_or_missing rt) pre
        \<and> import_result rt (import_name dep) = Some e \<and> \<not> is_ImportError e \<longrightarrow>
        (\<exists>s'. compile_and_validate_tool rt t s = (Inl e, s')
           \<and> generated_tools s' = generated_tools s))"
proof (intro conjI impI)
  assume eq: "compile_and_validate_tool rt t s = (Inr ct, s')"
  from compile_Inr [OF eq] obtain n c ds cfg where
    c: "code t = Some c" and p: "ast_parse rt c = None"
    and b: "build_compiled_tool t (missing_of rt ds) (analyze_code_quality c) cfg
              (utcnow rt (clock_reads s)) = Inr ct"
    by blast
  from b have st: "validation_status ct =
      (if missing_dependencies ct = [] then ''passed'' else ''warning'')"
    by (auto simp: build_compiled_tool_Inr)
  show "validation_status ct = ''passed'' \<longleftrightarrow> missing_dependencies ct = []"
    by (simp add: st)
  show "validation_status ct = ''warning'' \<longleftrightarrow> missing_dependencies ct \<noteq> []"
    by (simp add: st)
  show "parses rt t" using c p by (simp add: parses_def)
next
  assume np: "\<not> parses rt t"
  obtain r s' where eq: "compile_and_validate_tool rt t s = (r, s')"
    by (cases "compile_and_validate_tool rt t s")
  show "\<exists>e s'. compile_and_validate_tool rt t s = (Inl e, s')"
  proof (cases r)
    case (Inl e)
    with eq show ?thesis by blast
  next
    case (Inr ct)
    with eq have "compiles rt t" using compile_Inr_iff_compiles [of rt t s] by blast
    with np show ?thesis by (simp add: compiles_def)
  qed
next
  assume "has_all_keys t \<and> parses rt t \<and> resolves rt t"
  then have "compiles rt t" by (simp add: compiles_def)
  then obtain ct s' where eq: "compile_and_validate_tool rt t s = (Inr ct, s')"
    using compile_Inr_iff_compiles [of rt t s] by blast
  from compile_Inr [OF eq] obtain n c ds cfg where
    ds: "dependencies t = Some ds"
    and b: "build_compiled_tool t (missing_of rt ds) (analyze_code_quality c) cfg
              (utcnow rt (clock_reads s)) = Inr ct"
    by blast
  from b ds have td: "tool_dependencies ct = ds"
    and md: "missing_dependencies ct = missing_of rt ds"
    by (auto simp: build_compiled_tool_Inr)
  have "dependencies t = Some (tool_dependencies ct)" by (simp add: ds td)
  moreover have "missing_dependencies ct = filter (is_missing rt) (tool_dependencies ct)"
    by (simp add: md td missing_of_def)
  ultimately show "\<exists>ct s'. compile_and_validate_tool rt t s = (Inr ct, s')
           \<and> dependencies t = Some (tool_dependencies ct)
           \<and> missing_dependencies ct = filter (is_missing rt) (tool_dependencies ct)"
    using eq by (intro exI conjI)
next
  assume h: "has_all_keys t \<and> parses rt t \<and> dependencies t = Some (pre @ dep # post)
        \<and> list_all (found_or_missing rt) pre
        \<and> import_result rt (import_name dep) = Some e \<and> \<not> is_ImportError e"
  then obtain n c where n: "name t = Some n" and c: "code t = Some c"
    and p: "ast_parse rt c = None"
    by (auto simp: has_all_keys_def parses_def split: option.splits)
  from h have ds: "dependencies t = Some (pre @ dep # post)"
    and ok: "list_all (found_or_missing rt) pre"
    and i: "import_result rt (import_name dep) = Some e" and ni: "\<not> is_ImportError e"
    by simp_all
  from compile_dependency_raises [OF n c p ds ok i ni, of s]
  show "\<exists>s'. compile_and_validate_tool rt t s = (Inl e, s')
           \<and> generated_tools s' = generated_tools s"
    by blast
qed

theorem compile_validation_status_witness:
  "(\<exists>ct s'. compile_and_validate_tool sample_runtime
       (sample_spec ''research_tool_1'' ''pass'' [''pandas'', ''nonexistent-pkg-xyz''])
       initial_forge = (Inr ct, s')
      \<and> missing_dependencies ct = [''nonexistent-pkg-xyz'']
      \<and> validation_status ct = ''warning'')
   \<and> (\<exists>e s'. compile_and_validate_tool sample_runtime
       (sample_spec ''timeline_reconstructor_1'' ''def f(:'' []) initial_forge = (Inl e, s'))
   \<and> (\<exists>s'. compile_and_validate_tool sample_runtime
       (sample_spec ''research_tool_1'' ''pass'' [''pandas'', []]) initial_forge
         = (Inl (ValueError ''Empty module name''), s'))"
proof (intro conjI)
  let ?t = "sample_spec ''research_tool_1'' ''pass'' [''pandas'', ''nonexistent-pkg-xyz'']"
  have ok: "has_all_keys ?t \<and> parses sample_runtime ?t \<and> resolves sample_runtime ?t"
    by (simp add: has_all_keys_def parses_def resolves_def found_or_missing_sample)
  from compile_validation_status [of sample_runtime ?t initial_forge] ok
  obtain ct s' where eq: "compile_and_validate_tool sample_runtime ?t initial_forge = (Inr ct, s')"
    and td: "dependencies ?t = Some (tool_dependencies ct)"
    and md: "missing_dependencies ct =
       filter (is_missing sample_runtime) (tool_dependencies ct)"
    by blast
  from td have "tool_dependencies ct = [''pandas'', ''nonexistent-pkg-xyz'']" by simp
  with md have m: "missing_dependencies ct = [''nonexistent-pkg-xyz'']"
    by (simp add: is_missing_sample)
  from compile_validation_status [of sample_runtime ?t initial_forge ct s'] eq
  have "validation_status ct = ''warning'' \<longleftrightarrow> missing_dependencies ct \<noteq> []" by blast
  with m have w: "validation_status ct = ''warning''" by simp
  from eq m w show "\<exists>ct s'. compile_and_validate_tool sample_runtime ?t initial_forge
      = (Inr ct, s') \<and> missing_dependencies ct = [''nonexistent-pkg-xyz'']
      \<and> validation_status ct = ''warning''"
    by (intro exI conjI)
next
  let ?b = "sample_spec ''timeline_reconstructor_1'' ''def f(:'' []"
  have "\<not> parses sample_runtime ?b" by (simp add: parses_def)
  with compile_validation_status [of sample_runtime ?b initial_forge]
  show "\<exists>e s'. compile_and_validate_tool sample_runtime ?b initial_forge = (Inl e, s')"
    by blast
next
  let ?x = "sample_spec ''research_tool_1'' ''pass'' [''pandas'', []]"
  have h: "has_all_keys ?x \<and> parses sample_runtime ?x
        \<and> dependencies ?x = Some ([''pandas''] @ [] # [])
        \<and> list_all (found_or_missing sample_runtime) [''pandas'']
        \<and> import_result sample_runtime (import_name [])
            = Some (ValueError ''Empty module name'')
        \<and> \<not> is_ImportError (ValueError ''Empty module name'')"
    by (simp add: has_all_keys_def parses_def found_or_missing_sample sample_import_results)
  from compile_validation_status
         [of sample_runtime ?x initial_forge _ _ "[''pandas'']" "[]" "[]"
             "ValueError ''Empty module name''"] h
  show "\<exists>s'. compile_and_validate_tool sample_runtime ?x initial_forge
         = (Inl (ValueError ''Empty module name''), s')"
    by blast
qed




text \<open>
  Claim C9. Along any sequence of calls on a forge no key of the registry is lost; in
  particular the id of a tool that a compilation has just stored stays in the
  registry.
\<close>

theorem registry_never_loses:
  assumes "forge_run rt s s'"
  shows "(k \<in> dom (generated_tools s) \<longrightarrow> k \<in> dom (generated_tools s'))
         \<and> (\<forall>s0 t ct. compile_and_validate_tool rt t s0 = (Inr ct, s) \<longrightarrow>
               tool_id ct \<in> dom (generated_tools s'))"
proof -
  have sub: "dom (generated_tools s) \<subseteq> dom (generated_tools s')"
    using assms by (rule forge_run_registry_grows)
  have "\<forall>s0 t ct. compile_and_validate_tool rt t s0 = (Inr ct, s) \<longrightarrow>
               tool_id ct \<in> dom (generated_tools s')"
  proof (intro allI impI)
    fix s0 t ct assume eq: "compile_and_validate_tool rt t s0 = (Inr ct, s)"
    have "generated_tools s = (generated_tools s0)(tool_id ct \<mapsto> ct)"
      using compile_Inr_state [OF eq] by blast
    then have "tool_id ct \<in> dom (generated_tools s)" by simp
    with sub show "tool_id ct \<in> dom (generated_tools s')" by blast
  qed
  with sub show ?thesis by blast
qed

theorem registry_never_loses_witness:
  "\<exists>ct s1 r s2 rs s3 rb s4.
     compile_and_validate_tool sample_runtime
       (sample_spec ''evidence_analyzer_1'' ''pass'' [''pandas'']) initial_forge = (Inr ct, s1)
     \<and> compile_and_validate_tool sample_runtime
       (sample_spec ''timeline_reconstructor_1'' ''def f(:'' []) s1 = (r, s2)
     \<and> compile_loop sample_runtime sample_batch [] s2 = (rs, s3)
     \<and> generate_case_tools sample_runtime sample_context s3 = (rb, s4)
     \<and> tool_id ct \<in> dom (generated_tools s4)"
proof -
  have a: "list_all (found_or_missing sample_runtime) [''pandas'']"
    by (simp add: found_or_missing_sample)
  have b: "''pass'' \<noteq> ''def f(:''" by simp
  from sample_first_compile [OF a b]
  obtain ct s1 where first: "compile_and_validate_tool sample_runtime
       (sample_spec ''evidence_analyzer_1'' ''pass'' [''pandas'']) initial_forge = (Inr ct, s1)"
    by blast
  obtain r s2 where second: "compile_and_validate_tool sample_runtime
       (sample_spec ''timeline_reconstructor_1'' ''def f(:'' []) s1 = (r, s2)"
    by (cases "compile_and_validate_tool sample_runtime
       (sample_spec ''timeline_reconstructor_1'' ''def f(:'' []) s1")
  obtain rs s3 where third: "compile_loop sample_runtime sample_batch [] s2 = (rs, s3)"
    by (cases "compile_loop sample_runtime sample_batch [] s2")
  obtain rb s4 where fourth: "generate_case_tools sample_runtime sample_context s3 = (rb, s4)"
    by (cases "generate_case_tools sample_runtime sample_context s3")
  have "forge_run sample_runtime s1 s1" by (rule forge_run.no_call)
  then have "forge_run sample_runtime s1 s2" using second by (rule forge_run.compile_call)
  then have "forge_run sample_runtime s1 s3" using third by (rule forge_run.loop_call)
  then have run: "forge_run sample_runtime s1 s4" using fourth by (rule forge_run.batch_call)
  from registry_never_loses [OF run] first
  have "tool_id ct \<in> dom (generated_tools s4)" by blast
  with first second third fourth show ?thesis by (intro exI conjI)
qed

text \<open>
  Claim C10. The id of a compiled tool is the first 16 characters of the hexadecimal
  SHA-256 digest of its source text, which is the source text of the specification:
  16 characters, each a digit or a letter from \<open>a\<close> to \<open>f\<close>. Two compilations of
  specifications with the same source text give the same id, whatever the runtime,
  the other fields and the state of the forge.
\<close>

theorem tool_id_fingerprint:
  assumes "compile_and_validate_tool rt t s = (Inr ct, s')"
  shows "code t = Some (tool_code ct)
         \<and> tool_id ct = take 16 (hexdigest (sha256 (tool_code ct)))
         \<and> length (tool_id ct) = 16
         \<and> set (tool_id ct) \<subseteq> set hex_digits
         \<and> (\<forall>rt' t' s0 ct' s0'.
               compile_and_validate_tool rt' t' s0 = (Inr ct', s0') \<and> code t' = code t \<longrightarrow>
               tool_id ct' = tool_id ct)"
proof -
  have key: "\<And>rt t s ct s'. compile_and_validate_tool rt t s = (Inr ct, s') \<Longrightarrow>
      code t = Some (tool_code ct) \<and> tool_id ct = take 16 (hexdigest (sha256 (tool_code ct)))"
  proof -
    fix rt t s ct s' assume eq: "compile_and_validate_tool rt t s = (Inr ct, s')"
    from compile_Inr [OF eq] obtain n c ds cfg where
      "build_compiled_tool t (missing_of rt ds) (analyze_code_quality c) cfg
              (utcnow rt (clock_reads s)) = Inr ct"
      by blast
    then show "code t = Some (tool_code ct)
       \<and> tool_id ct = take 16 (hexdigest (sha256 (tool_code ct)))"
      by (auto simp: build_compiled_tool_Inr)
  qed
  note mine = key [OF assms]
  have len: "length (tool_id ct) = 16"
    by (simp only: mine [THEN conjunct2] fingerprint_length)
  have rng: "set (tool_id ct) \<subseteq> set hex_digits"
    by (simp only: mine [THEN conjunct2] fingerprint_range)
  have "\<forall>rt' t' s0 ct' s0'.
               compile_and_validate_tool rt' t' s0 = (Inr ct', s0') \<and> code t' = code t \<longrightarrow>
               tool_id ct' = tool_id ct"
  proof (intro allI impI)
    fix rt' t' s0 ct' s0'
    assume h: "compile_and_validate_tool rt' t' s0 = (Inr ct', s0') \<and> code t' = code t"
    then have "code t' = Some (tool_code ct')"
      and "tool_id ct' = take 16 (hexdigest (sha256 (tool_code ct')))"
      using key [of rt' t' s0 ct' s0'] by blast+
    moreover from h have "code t' = code t" by blast
    ultimately show "tool_id ct' = tool_id ct" using mine by simp
  qed
  with mine len rng show ?thesis by blast
qed

theorem tool_id_fingerprint_witness:
  "\<exists>ct s'. compile_and_validate_tool sample_runtime
       (sample_spec ''evidence_analyzer_1'' ''pass'' [''pandas'']) initial_forge = (Inr ct, s')
     \<and> tool_id ct = ''d74ff0ee8da3b980''"
proof -
  have a: "list_all (found_or_missing sample_runtime) [''pandas'']"
    by (simp add: found_or_missing_sample)
  have b: "''pass'' \<noteq> ''def f(:''" by simp
  from sample_first_compile [OF a b]
  obtain ct s' where first: "compile_and_validate_tool sample_runtime
       (sample_spec ''evidence_analyzer_1'' ''pass'' [''pandas'']) initial_forge = (Inr ct, s')"
    by blast
  from tool_id_fingerprint [OF first]
  have c: "code (sample_spec ''evidence_analyzer_1'' ''pass'' [''pandas'']) = Some (tool_code ct)"
    and i: "tool_id ct = take 16 (hexdigest (sha256 (tool_code ct)))"
    by blast+
  from c have "tool_code ct = ''pass''" by simp
  with i have "tool_id ct = ''d74ff0ee8da3b980''" by (simp only: sha256_pass)
  with first show ?thesis by (intro exI conjI)
qed

end
